theory Spec2Isabelle
  imports Main "HOL-Library.Word" "HOL-Library.Log_Nat"
begin

unbundle bit_operations_syntax

chapter \<open>The A/V streaming server: the model\<close>

text \<open>
  A shallow embedding of the parts of the server that the specification's claims are
  about. A definition is the translation of one C++ function of the repository and keeps
  its name (with a prefix or suffix where the name is taken in HOL or is an Isabelle
  keyword), unless the text above it says what else it is: a concrete object for an
  example, or a definition after the specification to compare the code with.

  Conventions of the embedding.
  \<^item> Member functions take the object as an argument and return the updated object
    together with the C++ return value; out-parameters are returned as well.
  \<^item> The model follows one thread at a time. A member function that runs under a
    \<^verbatim>\<open>std::lock_guard\<close> is one step of that thread. Where a function takes a mutex
    that the same thread already holds (\<^verbatim>\<open>CircularBuffer\<close>), the mutex is part of
    the state. The condition variable of \<^verbatim>\<open>SafeQueue\<close> is part of the state as the
    threads that are blocked in its \<^verbatim>\<open>wait\<close> and those that a notification has
    released.
  \<^item> A call that does not return has the outcome \<open>Blocked\<close> (below), or \<open>None\<close>
    where only the calling thread is looked at.
  \<^item> A private data member \<^verbatim>\<open>name_\<close> of a class is the record field \<open>m_name\<close>
    (an Isabelle name cannot end in an underscore).
  \<^item> \<^verbatim>\<open>size_t\<close> values are \<open>nat\<close> (no computation below comes near \<open>2^64\<close>);
    \<^verbatim>\<open>uint16_t\<close>, \<^verbatim>\<open>uint32_t\<close> and \<^verbatim>\<open>uint64_t\<close> fields are words.
\<close>

type_synonym byte = "8 word"

text \<open>A call that may never return. \<open>Returned r s\<close>: the call returned \<open>r\<close> and left
  the state \<open>s\<close>. \<open>Blocked s\<close>: the thread is inside a call that does not return (a
  system call, a wait, the lock of a mutex), and \<open>s\<close> is the state it has reached, for
  good as far as this thread is concerned.\<close>

datatype ('r, 's) outcome = Returned 'r 's | Blocked 's

section \<open>SafeQueue (AVServer\_01\_SafeQueue.h)\<close>

text \<open>The queue, the shutdown flag, and the state of \<^verbatim>\<open>condition_\<close>: the threads that
  are blocked in \<^verbatim>\<open>condition_.wait\<close> (inside \<^verbatim>\<open>pop\<close>), and the threads that a
  notification has released from the wait and that have not run since. A released thread
  takes the mutex again and evaluates the predicate of its wait again. Threads are
  numbers.\<close>

record 'a SafeQueue =
  m_queue :: "'a list"
  m_shutdown :: bool
  m_waiting :: "nat list"
  m_woken :: "nat list"

definition SafeQueue_init :: "'a SafeQueue" where
  "SafeQueue_init = \<lparr>m_queue = [], m_shutdown = False, m_waiting = [], m_woken = []\<rparr>"

text \<open>\<^verbatim>\<open>condition_.notify_one()\<close> releases one of the waiting threads, if there is one
  (which one, C++ does not say: it is the head of the list, whatever the order of the list
  is), \<^verbatim>\<open>condition_.notify_all()\<close> releases them all.\<close>

definition notify_one :: "'a SafeQueue \<Rightarrow> 'a SafeQueue" where
  "notify_one q =
     (case m_waiting q of
        [] \<Rightarrow> q
      | t # ts \<Rightarrow> q\<lparr>m_waiting := ts, m_woken := m_woken q @ [t]\<rparr>)"

definition notify_all :: "'a SafeQueue \<Rightarrow> 'a SafeQueue" where
  "notify_all q = q\<lparr>m_waiting := [], m_woken := m_woken q @ m_waiting q\<rparr>"

text \<open>\<^verbatim>\<open>void push(const T& value)\<close>: \<^verbatim>\<open>queue_.push(value)\<close> under the lock, then
  \<^verbatim>\<open>condition_.notify_one()\<close>.\<close>

definition push :: "'a \<Rightarrow> 'a SafeQueue \<Rightarrow> 'a SafeQueue" where
  "push v q = notify_one (q\<lparr>m_queue := m_queue q @ [v]\<rparr>)"

text \<open>The predicate that \<^verbatim>\<open>pop\<close> and \<^verbatim>\<open>pop_for\<close> hand to
  \<^verbatim>\<open>condition_.wait\<close>: \<^verbatim>\<open>!queue_.empty() || shutdown_\<close>. A thread waiting in
  \<^verbatim>\<open>pop\<close> leaves the wait exactly when it is notified and this predicate holds.\<close>

definition wait_predicate :: "'a SafeQueue \<Rightarrow> bool" where
  "wait_predicate q = (m_queue q \<noteq> [] \<or> m_shutdown q)"

text \<open>\<^verbatim>\<open>bool pop(T& value)\<close>, for the thread that runs it with the mutex in its
  hand. The argument \<open>v\<close> is the caller's variable before the call; the result is the
  return value, the variable after the call and the queue. \<open>None\<close>: the predicate is
  false and the thread has to wait.\<close>

definition pop :: "'a SafeQueue \<Rightarrow> 'a \<Rightarrow> (bool \<times> 'a \<times> 'a SafeQueue) option" where
  "pop q v =
     (if \<not> wait_predicate q then None
      else if m_shutdown q \<and> m_queue q = [] then Some (False, v, q)
      else if m_queue q \<noteq> [] then Some (True, hd (m_queue q), q\<lparr>m_queue := tl (m_queue q)\<rparr>)
      else Some (False, v, q))"

text \<open>\<^verbatim>\<open>pop\<close> called by the thread \<open>t\<close>: when the predicate is false the thread
  blocks in \<^verbatim>\<open>condition_.wait\<close>. And the thread \<open>t\<close> that a notification has
  released: \<^verbatim>\<open>wait(lock, pred)\<close> is \<^verbatim>\<open>while (!pred()) wait(lock);\<close>, so the
  thread goes on as if it called \<^verbatim>\<open>pop\<close> now.\<close>

definition pop_call :: "nat \<Rightarrow> 'a \<Rightarrow> 'a SafeQueue \<Rightarrow> (bool \<times> 'a, 'a SafeQueue) outcome" where
  "pop_call t v q =
     (case pop q v of
        None \<Rightarrow> Blocked (q\<lparr>m_waiting := m_waiting q @ [t]\<rparr>)
      | Some (r, v', q') \<Rightarrow> Returned (r, v') q')"

definition pop_wake :: "nat \<Rightarrow> 'a \<Rightarrow> 'a SafeQueue \<Rightarrow> (bool \<times> 'a, 'a SafeQueue) outcome" where
  "pop_wake t v q = pop_call t v (q\<lparr>m_woken := remove1 t (m_woken q)\<rparr>)"

text \<open>The released threads \<open>ts\<close> run one after the other, each with its own variable
  that holds \<open>v\<close>. The result lists for each thread what its \<^verbatim>\<open>pop\<close> returned
  and its variable then, or \<open>None\<close> when the thread is blocked in the wait again.\<close>

fun pop_wakes ::
    "nat list \<Rightarrow> 'a \<Rightarrow> 'a SafeQueue \<Rightarrow> (nat \<times> (bool \<times> 'a) option) list \<times> 'a SafeQueue" where
  "pop_wakes [] v q = ([], q)"
| "pop_wakes (t # ts) v q =
     (case pop_wake t v q of
        Blocked q' \<Rightarrow> (case pop_wakes ts v q' of (rs, q'') \<Rightarrow> ((t, None) # rs, q''))
      | Returned r q' \<Rightarrow> (case pop_wakes ts v q' of (rs, q'') \<Rightarrow> ((t, Some r) # rs, q'')))"

definition try_pop :: "'a SafeQueue \<Rightarrow> 'a \<Rightarrow> bool \<times> 'a \<times> 'a SafeQueue" where
  "try_pop q v =
     (if m_queue q = [] then (False, v, q)
      else (True, hd (m_queue q), q\<lparr>m_queue := tl (m_queue q)\<rparr>))"

definition queue_size :: "'a SafeQueue \<Rightarrow> nat" where
  "queue_size q = length (m_queue q)"

text \<open>\<^verbatim>\<open>void shutdown()\<close>: \<^verbatim>\<open>shutdown_ = true\<close> under the lock, then
  \<^verbatim>\<open>condition_.notify_all()\<close>.\<close>

definition shutdown :: "'a SafeQueue \<Rightarrow> 'a SafeQueue" where
  "shutdown q = notify_all (q\<lparr>m_shutdown := True\<rparr>)"

definition is_shutdown :: "'a SafeQueue \<Rightarrow> bool" where
  "is_shutdown q = m_shutdown q"

text \<open>\<open>pops n q v\<close>: one consumer calls \<^verbatim>\<open>pop\<close> \<open>n\<close> times in a row on the same
  variable. The result lists, per call, the return value and the variable after it.\<close>

fun pops :: "nat \<Rightarrow> 'a SafeQueue \<Rightarrow> 'a \<Rightarrow> ((bool \<times> 'a) list \<times> 'a SafeQueue) option" where
  "pops 0 q v = Some ([], q)"
| "pops (Suc n) q v =
     (case pop q v of
        None \<Rightarrow> None
      | Some (r, v', q') \<Rightarrow>
          (case pops n q' v' of
             None \<Rightarrow> None
           | Some (rs, q'') \<Rightarrow> Some ((r, v') # rs, q'')))"

text \<open>Two threads, 1 and 2, have called \<^verbatim>\<open>pop\<close> on the empty queue and are
  blocked.\<close>

definition two_waiters :: "nat SafeQueue" where
  "two_waiters =
     (case pop_call 1 0 SafeQueue_init of
        Blocked q \<Rightarrow> (case pop_call 2 0 q of Blocked q' \<Rightarrow> q' | Returned r q' \<Rightarrow> q')
      | Returned r q \<Rightarrow> q)"

section \<open>CircularBuffer (AVServer\_02\_CircularBuffer.h)\<close>

text \<open>
  The buffer is the array \<open>m_buffer\<close> of \<open>m_capacity\<close> bytes with the two positions,
  and \<open>m_mutex\<close>: whether \<^verbatim>\<open>mutex_\<close> is held. The model follows one thread, so a held
  mutex is held by that thread. A source pointer with its size is the list of the bytes
  it points to (the pointer is not null).
\<close>

record CircularBuffer =
  m_capacity :: nat
  m_buffer :: "byte list"
  m_write_pos :: nat
  m_read_pos :: nat
  m_mutex :: bool

text \<open>\<^verbatim>\<open>std::make_unique<uint8_t[]>(capacity)\<close> value-initialises the array.\<close>

definition CircularBuffer_init :: "nat \<Rightarrow> CircularBuffer" where
  "CircularBuffer_init capacity =
     \<lparr>m_capacity = capacity, m_buffer = replicate capacity 0, m_write_pos = 0, m_read_pos = 0,
      m_mutex = False\<rparr>"

text \<open>\<^verbatim>\<open>std::memcpy(dst + off, src, n)\<close> on an array held as a list.\<close>

definition memcpy_to :: "byte list \<Rightarrow> nat \<Rightarrow> byte list \<Rightarrow> byte list" where
  "memcpy_to dst off src = take off dst @ src @ drop (off + length src) dst"

definition memcpy_from :: "byte list \<Rightarrow> nat \<Rightarrow> nat \<Rightarrow> byte list" where
  "memcpy_from src off n = take n (drop off src)"

text \<open>\<^verbatim>\<open>std::lock_guard<std::mutex> lock(mutex_)\<close>. \<^verbatim>\<open>mutex_\<close> is a
  \<^verbatim>\<open>std::mutex\<close>, which is not recursive: a thread that locks it while it holds it
  waits for itself (C++ leaves the behaviour undefined; the implementations of the
  platforms of this server block). The guard unlocks when its scope ends.\<close>

definition lock_guard :: "CircularBuffer \<Rightarrow> (unit, CircularBuffer) outcome" where
  "lock_guard cb = (if m_mutex cb then Blocked cb else Returned () (cb\<lparr>m_mutex := True\<rparr>))"

definition unlock :: "CircularBuffer \<Rightarrow> CircularBuffer" where
  "unlock cb = cb\<lparr>m_mutex := False\<rparr>"

text \<open>\<^verbatim>\<open>size_t available_data_unlocked() const\<close>, the private function for callers that
  hold the lock.\<close>

definition available_data_unlocked :: "CircularBuffer \<Rightarrow> nat" where
  "available_data_unlocked cb =
     (if m_write_pos cb \<ge> m_read_pos cb then m_write_pos cb - m_read_pos cb
      else m_capacity cb - m_read_pos cb + m_write_pos cb)"

text \<open>\<^verbatim>\<open>size_t available_data() const\<close>: the same computation under its own
  \<^verbatim>\<open>lock_guard\<close>.\<close>

definition available_data :: "CircularBuffer \<Rightarrow> (nat, CircularBuffer) outcome" where
  "available_data cb =
     (case lock_guard cb of
        Blocked cb' \<Rightarrow> Blocked cb'
      | Returned _ cb' \<Rightarrow>
          Returned (if m_write_pos cb' \<ge> m_read_pos cb' then m_write_pos cb' - m_read_pos cb'
                    else m_capacity cb' - m_read_pos cb' + m_write_pos cb')
                   (unlock cb'))"

definition available_space :: "CircularBuffer \<Rightarrow> (nat, CircularBuffer) outcome" where
  "available_space cb =
     (case lock_guard cb of
        Blocked cb' \<Rightarrow> Blocked cb'
      | Returned _ cb' \<Rightarrow> Returned (m_capacity cb' - available_data_unlocked cb') (unlock cb'))"

text \<open>\<^verbatim>\<open>size_t write(const void* data, size_t size)\<close>, with \<open>size = length src\<close>, in two
  parts. \<open>write_rest fill src cb\<close> are the statements that follow the call
  \<^verbatim>\<open>available_data()\<close>, which has returned \<open>fill\<close>: they give the number of bytes
  written and the buffer. \<open>cb_write\<close> is the function: it takes the lock and, with the
  lock in its hand, calls \<^verbatim>\<open>available_data()\<close>, which takes the lock.\<close>

definition write_rest :: "nat \<Rightarrow> byte list \<Rightarrow> CircularBuffer \<Rightarrow> nat \<times> CircularBuffer" where
  "write_rest fill src cb =
     (let available = m_capacity cb - fill;
          bytes_to_write = min (length src) available
      in if bytes_to_write = 0 then (0, cb)
         else if m_write_pos cb + bytes_to_write \<le> m_capacity cb then
           (bytes_to_write,
            cb\<lparr>m_buffer := memcpy_to (m_buffer cb) (m_write_pos cb) (take bytes_to_write src),
               m_write_pos := (m_write_pos cb + bytes_to_write) mod m_capacity cb\<rparr>)
         else
           let first_part = m_capacity cb - m_write_pos cb;
               second_part = bytes_to_write - first_part
           in (bytes_to_write,
               cb\<lparr>m_buffer :=
                    memcpy_to (memcpy_to (m_buffer cb) (m_write_pos cb) (take first_part src))
                      0 (take second_part (drop first_part src)),
                  m_write_pos := second_part\<rparr>))"

definition cb_write :: "byte list \<Rightarrow> CircularBuffer \<Rightarrow> (nat, CircularBuffer) outcome" where
  "cb_write src cb =
     (if length src = 0 then Returned 0 cb
      else
        (case lock_guard cb of
           Blocked cb' \<Rightarrow> Blocked cb'
         | Returned _ cb' \<Rightarrow>
             (case available_data cb' of
                Blocked cb'' \<Rightarrow> Blocked cb''
              | Returned fill cb'' \<Rightarrow>
                  (case write_rest fill src cb'' of
                     (bytes_to_write, cb''') \<Rightarrow> Returned bytes_to_write (unlock cb''')))))"

text \<open>\<^verbatim>\<open>size_t read(void* data, size_t size)\<close>, in the same two parts: the bytes stored
  into \<open>data\<close> (their number is the return value) and the buffer.\<close>

definition read_rest :: "nat \<Rightarrow> nat \<Rightarrow> CircularBuffer \<Rightarrow> byte list \<times> CircularBuffer" where
  "read_rest bytes_available n cb =
     (let bytes_to_read = min n bytes_available
      in if bytes_to_read = 0 then ([], cb)
         else if m_read_pos cb + bytes_to_read \<le> m_capacity cb then
           (memcpy_from (m_buffer cb) (m_read_pos cb) bytes_to_read,
            cb\<lparr>m_read_pos := (m_read_pos cb + bytes_to_read) mod m_capacity cb\<rparr>)
         else
           let first_part = m_capacity cb - m_read_pos cb;
               second_part = bytes_to_read - first_part
           in (memcpy_from (m_buffer cb) (m_read_pos cb) first_part
                 @ memcpy_from (m_buffer cb) 0 second_part,
               cb\<lparr>m_read_pos := second_part\<rparr>))"

definition cb_read :: "nat \<Rightarrow> CircularBuffer \<Rightarrow> (byte list, CircularBuffer) outcome" where
  "cb_read n cb =
     (if n = 0 then Returned [] cb
      else
        (case lock_guard cb of
           Blocked cb' \<Rightarrow> Blocked cb'
         | Returned _ cb' \<Rightarrow>
             (case available_data cb' of
                Blocked cb'' \<Rightarrow> Blocked cb''
              | Returned bytes_available cb'' \<Rightarrow>
                  (case read_rest bytes_available n cb'' of
                     (bytes, cb''') \<Rightarrow> Returned bytes (unlock cb''')))))"

text \<open>\<^verbatim>\<open>size_t peek(void* data, size_t size) const\<close>.\<close>

definition peek_rest :: "nat \<Rightarrow> nat \<Rightarrow> CircularBuffer \<Rightarrow> byte list" where
  "peek_rest bytes_available n cb =
     (let bytes_to_peek = min n bytes_available
      in if bytes_to_peek = 0 then []
         else if m_read_pos cb + bytes_to_peek \<le> m_capacity cb then
           memcpy_from (m_buffer cb) (m_read_pos cb) bytes_to_peek
         else
           let first_part = m_capacity cb - m_read_pos cb;
               second_part = bytes_to_peek - first_part
           in memcpy_from (m_buffer cb) (m_read_pos cb) first_part
                @ memcpy_from (m_buffer cb) 0 second_part)"

definition peek :: "nat \<Rightarrow> CircularBuffer \<Rightarrow> (byte list, CircularBuffer) outcome" where
  "peek n cb =
     (if n = 0 then Returned [] cb
      else
        (case lock_guard cb of
           Blocked cb' \<Rightarrow> Blocked cb'
         | Returned _ cb' \<Rightarrow>
             (case available_data cb' of
                Blocked cb'' \<Rightarrow> Blocked cb''
              | Returned bytes_available cb'' \<Rightarrow>
                  Returned (peek_rest bytes_available n cb'') (unlock cb''))))"

text \<open>\<^verbatim>\<open>void clear()\<close>, \<^verbatim>\<open>bool empty() const\<close> and \<^verbatim>\<open>bool full() const\<close>; these
  do not call a function that locks.\<close>

definition clear :: "CircularBuffer \<Rightarrow> (unit, CircularBuffer) outcome" where
  "clear cb =
     (case lock_guard cb of
        Blocked cb' \<Rightarrow> Blocked cb'
      | Returned _ cb' \<Rightarrow> Returned () (unlock (cb'\<lparr>m_read_pos := 0, m_write_pos := 0\<rparr>)))"

definition cb_empty :: "CircularBuffer \<Rightarrow> (bool, CircularBuffer) outcome" where
  "cb_empty cb =
     (case lock_guard cb of
        Blocked cb' \<Rightarrow> Blocked cb'
      | Returned _ cb' \<Rightarrow> Returned (m_read_pos cb' = m_write_pos cb') (unlock cb'))"

definition full :: "CircularBuffer \<Rightarrow> (bool, CircularBuffer) outcome" where
  "full cb =
     (case lock_guard cb of
        Blocked cb' \<Rightarrow> Blocked cb'
      | Returned _ cb' \<Rightarrow>
          Returned (available_data_unlocked cb' = m_capacity cb') (unlock cb'))"

text \<open>The states the member functions reach from the constructor: the array has
  \<open>m_capacity\<close> cells and both positions are inside it.\<close>

definition cb_inv :: "CircularBuffer \<Rightarrow> bool" where
  "cb_inv cb = (length (m_buffer cb) = m_capacity cb
                \<and> m_write_pos cb < m_capacity cb \<and> m_read_pos cb < m_capacity cb)"

section \<open>MessageHeader and Message (AVServer\_06\_MessageProtocol.h)\<close>

subsection \<open>Scalars in memory and the layout of the header\<close>

text \<open>
  \<^verbatim>\<open>MessageHeader\<close> is used through its fields and, in three places, through its
  object representation: \<^verbatim>\<open>calculate_crc\<close> reads the first 18 bytes of
  \<^verbatim>\<open>*this\<close>, \<^verbatim>\<open>serialize\<close> copies the first \<^verbatim>\<open>HEADER_SIZE\<close> bytes of
  \<^verbatim>\<open>*this\<close> out, and \<^verbatim>\<open>deserialize\<close> copies \<^verbatim>\<open>HEADER_SIZE\<close> bytes over it.
  The model therefore keeps a header as the bytes of the object, and reads and writes
  the fields at their offsets. Scalars are stored little-endian (the host order of the
  platforms below, and the order the wire format of the specification names).

  The struct is declared without any packing directive, so the offsets are those the
  platform ABI assigns: every member at the next multiple of its alignment, the size
  rounded up to the largest alignment. The alignments are a parameter \<open>abi\<close> of the
  model; \<open>lp64\<close> is the ABI of x86-64 and AArch64 (Linux, macOS, Windows), \<open>ilp32\<close>
  that of 32-bit x86 Linux, and \<open>packed\<close> is the layout with no padding that the
  comment above the struct describes.
\<close>

definition le_bytes :: "nat \<Rightarrow> 'a::len word \<Rightarrow> byte list" where
  "le_bytes n w = map (\<lambda>i. ucast (drop_bit (8 * i) w)) [0..<n]"

definition le_word :: "byte list \<Rightarrow> 'a::len word" where
  "le_word bs = foldr (\<lambda>b acc. ucast b OR push_bit 8 acc) bs 0"

record abi =
  align_u16 :: nat
  align_u32 :: nat
  align_u64 :: nat

definition lp64 :: abi where
  "lp64 = \<lparr>align_u16 = 2, align_u32 = 4, align_u64 = 8\<rparr>"

definition ilp32 :: abi where
  "ilp32 = \<lparr>align_u16 = 2, align_u32 = 4, align_u64 = 4\<rparr>"

definition packed :: abi where
  "packed = \<lparr>align_u16 = 1, align_u32 = 1, align_u64 = 1\<rparr>"

definition align_up :: "nat \<Rightarrow> nat \<Rightarrow> nat" where
  "align_up a n = ((n + a - 1) div a) * a"

definition offset_magic :: nat where
  "offset_magic = 0"

definition offset_type :: "abi \<Rightarrow> nat" where
  "offset_type a = align_up (align_u16 a) (offset_magic + 4)"

definition offset_payload_size :: "abi \<Rightarrow> nat" where
  "offset_payload_size a = align_up (align_u32 a) (offset_type a + 2)"

definition offset_timestamp :: "abi \<Rightarrow> nat" where
  "offset_timestamp a = align_up (align_u64 a) (offset_payload_size a + 4)"

definition offset_header_crc :: "abi \<Rightarrow> nat" where
  "offset_header_crc a = align_up (align_u16 a) (offset_timestamp a + 8)"

definition sizeof_MessageHeader :: "abi \<Rightarrow> nat" where
  "sizeof_MessageHeader a =
     align_up (max (align_u16 a) (max (align_u32 a) (align_u64 a))) (offset_header_crc a + 2)"

type_synonym MessageHeader = "byte list"

definition MAGIC_NUMBER :: "32 word" where
  "MAGIC_NUMBER = 0xABCD1234"

definition HEADER_SIZE :: nat where
  "HEADER_SIZE = 20"

definition magic :: "MessageHeader \<Rightarrow> 32 word" where
  "magic h = le_word (memcpy_from h offset_magic 4)"

definition type :: "abi \<Rightarrow> MessageHeader \<Rightarrow> 16 word" where
  "type a h = le_word (memcpy_from h (offset_type a) 2)"

definition payload_size :: "abi \<Rightarrow> MessageHeader \<Rightarrow> 32 word" where
  "payload_size a h = le_word (memcpy_from h (offset_payload_size a) 4)"

definition timestamp :: "abi \<Rightarrow> MessageHeader \<Rightarrow> 64 word" where
  "timestamp a h = le_word (memcpy_from h (offset_timestamp a) 8)"

definition header_crc :: "abi \<Rightarrow> MessageHeader \<Rightarrow> 16 word" where
  "header_crc a h = le_word (memcpy_from h (offset_header_crc a) 2)"

definition set_magic :: "32 word \<Rightarrow> MessageHeader \<Rightarrow> MessageHeader" where
  "set_magic v h = memcpy_to h offset_magic (le_bytes 4 v)"

definition set_type_field :: "abi \<Rightarrow> 16 word \<Rightarrow> MessageHeader \<Rightarrow> MessageHeader" where
  "set_type_field a v h = memcpy_to h (offset_type a) (le_bytes 2 v)"

definition set_payload_size :: "abi \<Rightarrow> 32 word \<Rightarrow> MessageHeader \<Rightarrow> MessageHeader" where
  "set_payload_size a v h = memcpy_to h (offset_payload_size a) (le_bytes 4 v)"

definition set_timestamp_field :: "abi \<Rightarrow> 64 word \<Rightarrow> MessageHeader \<Rightarrow> MessageHeader" where
  "set_timestamp_field a v h = memcpy_to h (offset_timestamp a) (le_bytes 8 v)"

definition set_header_crc :: "abi \<Rightarrow> 16 word \<Rightarrow> MessageHeader \<Rightarrow> MessageHeader" where
  "set_header_crc a v h = memcpy_to h (offset_header_crc a) (le_bytes 2 v)"

subsection \<open>MessageHeader\<close>

text \<open>The inner loop of \<^verbatim>\<open>calculate_crc\<close>, \<^verbatim>\<open>for (int j = 0; j < 8; ++j)\<close>, with
  \<open>n\<close> iterations left.\<close>

fun crc_shift :: "nat \<Rightarrow> 16 word \<Rightarrow> 16 word" where
  "crc_shift 0 crc = crc"
| "crc_shift (Suc n) crc =
     crc_shift n (if crc AND 1 \<noteq> 0 then drop_bit 1 crc XOR 0xA001 else drop_bit 1 crc)"

text \<open>\<^verbatim>\<open>uint16_t calculate_crc() const\<close>: \<open>data[i]\<close> is byte \<open>i\<close> of the object.\<close>

definition calculate_crc :: "MessageHeader \<Rightarrow> 16 word" where
  "calculate_crc h = fold (\<lambda>i crc. crc_shift 8 (crc XOR ucast (h ! i))) [0..<18] 0xFFFF"

definition MAX_PAYLOAD_SIZE :: "32 word" where
  "MAX_PAYLOAD_SIZE = 100 * 1024 * 1024"

text \<open>\<^verbatim>\<open>bool is_valid() const\<close>, with its three early returns in the source's order.\<close>

definition is_valid :: "abi \<Rightarrow> MessageHeader \<Rightarrow> bool" where
  "is_valid a h =
     (if magic h \<noteq> MAGIC_NUMBER then False
      else if payload_size a h > MAX_PAYLOAD_SIZE then False
      else if header_crc a h \<noteq> calculate_crc h then False
      else True)"

text \<open>The constructor. \<open>storage\<close> is what the object's \<open>sizeof\<close> bytes hold before
  the constructor runs; the member initialisers overwrite the fields, the padding keeps
  its bytes (C++ leaves them indeterminate). The body then stores the CRC.\<close>

definition MessageHeader_init ::
    "abi \<Rightarrow> byte list \<Rightarrow> 16 word \<Rightarrow> 32 word \<Rightarrow> 64 word \<Rightarrow> MessageHeader" where
  "MessageHeader_init a storage msg_type payload_sz ts =
     (let h = set_header_crc a 0
                (set_timestamp_field a ts
                  (set_payload_size a payload_sz
                    (set_type_field a msg_type
                      (set_magic MAGIC_NUMBER storage))))
      in set_header_crc a (calculate_crc h) h)"

text \<open>\<^verbatim>\<open>serialize\<close>: \<^verbatim>\<open>std::memcpy(buffer, this, HEADER_SIZE)\<close>; the result is what
  the first \<^verbatim>\<open>HEADER_SIZE\<close> bytes of the buffer hold afterwards.
  \<^verbatim>\<open>deserialize\<close>: \<^verbatim>\<open>std::memcpy(this, buffer, HEADER_SIZE)\<close>.\<close>

definition serialize :: "MessageHeader \<Rightarrow> byte list" where
  "serialize h = memcpy_from h 0 HEADER_SIZE"

definition deserialize :: "byte list \<Rightarrow> MessageHeader \<Rightarrow> MessageHeader" where
  "deserialize buffer h = memcpy_to h 0 (memcpy_from buffer 0 HEADER_SIZE)"

text \<open>The CRC-16 of the specification, in its words: reflected, bit by bit, with a
  polynomial and an initial value; each byte is xored into the low byte of the register,
  which is then shifted right eight times, xoring the polynomial in whenever a one is
  shifted out.\<close>

definition crc16_bit :: "16 word \<Rightarrow> 16 word \<Rightarrow> 16 word" where
  "crc16_bit poly crc = (if bit crc 0 then drop_bit 1 crc XOR poly else drop_bit 1 crc)"

definition crc16_reflected :: "16 word \<Rightarrow> 16 word \<Rightarrow> byte list \<Rightarrow> 16 word" where
  "crc16_reflected poly init bs = fold (\<lambda>b crc. (crc16_bit poly ^^ 8) (crc XOR ucast b)) bs init"

text \<open>The validity check of the specification, in its words, to compare \<open>is_valid\<close>
  with: the header's bytes 0 to 17 are the magic (offset 0), the type code (offset 4), the
  payload size (offset 6) and the timestamp (offset 10), little-endian and without gaps,
  as the table of the specification and the comment above the struct give them; the
  header is valid when the magic is \<open>0xABCD1234\<close>, the payload size is at most 100 MiB
  and the stored CRC is the CRC-16 of those 18 bytes. These two definitions are not taken
  from the code.\<close>

definition spec_header_bytes_0_17 :: "abi \<Rightarrow> MessageHeader \<Rightarrow> byte list" where
  "spec_header_bytes_0_17 a h =
     le_bytes 4 (magic h) @ le_bytes 2 (type a h) @ le_bytes 4 (payload_size a h)
       @ le_bytes 8 (timestamp a h)"

definition spec_is_valid :: "abi \<Rightarrow> MessageHeader \<Rightarrow> bool" where
  "spec_is_valid a h =
     (magic h = 0xABCD1234
      \<and> unat (payload_size a h) \<le> 100 * 1024 * 1024
      \<and> header_crc a h = crc16_reflected 0xA001 0xFFFF (spec_header_bytes_0_17 a h))"

text \<open>Storage whose bytes are all zero, for the concrete objects of the examples.\<close>

definition zero_storage :: "nat \<Rightarrow> byte list" where
  "zero_storage n = replicate n 0"

text \<open>\<^verbatim>\<open>MessageHeader h(MessageType::HEARTBEAT, 0, ts);\<close> with the numeric type code
  200.\<close>

definition heartbeat_header :: "abi \<Rightarrow> 64 word \<Rightarrow> MessageHeader" where
  "heartbeat_header a ts = MessageHeader_init a (zero_storage (sizeof_MessageHeader a)) 200 0 ts"

subsection \<open>Message\<close>

datatype MessageType =
    FRAME_DATA | VIDEO_FRAME | AUDIO_FRAME
  | START_STREAM | STOP_STREAM | SET_BITRATE | SET_QUALITY | CODEC_INFO
  | HEARTBEAT | HEARTBEAT_ACK | ACK | ERROR

text \<open>\<^verbatim>\<open>static_cast<uint16_t>(msg_type)\<close>.\<close>

fun type_code :: "MessageType \<Rightarrow> 16 word" where
  "type_code FRAME_DATA = 0"
| "type_code VIDEO_FRAME = 1"
| "type_code AUDIO_FRAME = 2"
| "type_code START_STREAM = 100"
| "type_code STOP_STREAM = 101"
| "type_code SET_BITRATE = 102"
| "type_code SET_QUALITY = 103"
| "type_code CODEC_INFO = 104"
| "type_code HEARTBEAT = 200"
| "type_code HEARTBEAT_ACK = 201"
| "type_code ACK = 202"
| "type_code ERROR = 203"

record Message =
  m_header :: MessageHeader
  m_payload :: "byte list"
  m_valid :: bool

text \<open>\<^verbatim>\<open>explicit Message(MessageType type, uint32_t payload_size = 0, uint64_t timestamp = 0)\<close>:
  the header gets the announced payload size, the payload vector stays empty
  (\<^verbatim>\<open>reserve\<close> does not change its size). \<^verbatim>\<open>Message()\<close> is
  \<open>Message_init a storage FRAME_DATA 0 0\<close>.\<close>

definition Message_init ::
    "abi \<Rightarrow> byte list \<Rightarrow> MessageType \<Rightarrow> 32 word \<Rightarrow> 64 word \<Rightarrow> Message" where
  "Message_init a storage t payload_sz ts =
     \<lparr>m_header = MessageHeader_init a storage (type_code t) payload_sz ts,
      m_payload = [], m_valid = True\<rparr>"

definition get_type_code :: "abi \<Rightarrow> Message \<Rightarrow> 16 word" where
  "get_type_code a m = type a (m_header m)"

definition get_timestamp :: "abi \<Rightarrow> Message \<Rightarrow> 64 word" where
  "get_timestamp a m = timestamp a (m_header m)"

definition get_payload_size :: "abi \<Rightarrow> Message \<Rightarrow> 32 word" where
  "get_payload_size a m = payload_size a (m_header m)"

text \<open>\<^verbatim>\<open>set_type\<close> and \<^verbatim>\<open>set_timestamp\<close> store the field and then the recomputed CRC.\<close>

definition set_type :: "abi \<Rightarrow> MessageType \<Rightarrow> Message \<Rightarrow> Message" where
  "set_type a t m =
     (let h = set_type_field a (type_code t) (m_header m)
      in m\<lparr>m_header := set_header_crc a (calculate_crc h) h\<rparr>)"

definition set_timestamp :: "abi \<Rightarrow> 64 word \<Rightarrow> Message \<Rightarrow> Message" where
  "set_timestamp a ts m =
     (let h = set_timestamp_field a ts (m_header m)
      in m\<lparr>m_header := set_header_crc a (calculate_crc h) h\<rparr>)"

text \<open>\<^verbatim>\<open>bool set_payload(const void* data, uint32_t size)\<close>, \<open>size = length src\<close>.
  It stores \<^verbatim>\<open>header_.payload_size\<close> and leaves \<^verbatim>\<open>header_.header_crc\<close> as it is.
  \<open>can_allocate n\<close> says whether the vector can get \<open>n\<close> bytes; when it cannot,
  \<^verbatim>\<open>resize\<close> throws and the \<^verbatim>\<open>catch (...)\<close> branch runs.\<close>

definition set_payload :: "(nat \<Rightarrow> bool) \<Rightarrow> abi \<Rightarrow> byte list \<Rightarrow> Message \<Rightarrow> bool \<times> Message" where
  "set_payload can_allocate a src m =
     (if length src = 0 then
        (True, m\<lparr>m_payload := [], m_header := set_payload_size a 0 (m_header m)\<rparr>)
      else if can_allocate (length src) then
        (True, m\<lparr>m_payload := src,
                 m_header := set_payload_size a (of_nat (length src)) (m_header m)\<rparr>)
      else (False, m\<lparr>m_valid := False\<rparr>))"

text \<open>\<^verbatim>\<open>std::vector<uint8_t> to_bytes() const\<close>: the \<^verbatim>\<open>HEADER_SIZE\<close> bytes that
  \<^verbatim>\<open>serialize\<close> wrote, then the payload vector.\<close>

definition to_bytes :: "Message \<Rightarrow> byte list" where
  "to_bytes m = serialize (m_header m) @ m_payload m"

definition total_size :: "Message \<Rightarrow> nat" where
  "total_size m = HEADER_SIZE + length (m_payload m)"

text \<open>\<^verbatim>\<open>bool from_bytes(const uint8_t* data, size_t size)\<close>, \<open>size = length src\<close>.\<close>

definition from_bytes :: "(nat \<Rightarrow> bool) \<Rightarrow> abi \<Rightarrow> byte list \<Rightarrow> Message \<Rightarrow> bool \<times> Message" where
  "from_bytes can_allocate a src m =
     (if length src < HEADER_SIZE then (False, m\<lparr>m_valid := False\<rparr>)
      else
        let h = deserialize src (m_header m) in
        if \<not> is_valid a h then (False, m\<lparr>m_header := h, m_valid := False\<rparr>)
        else
          let expected_total = HEADER_SIZE + unat (payload_size a h) in
          if length src < expected_total then (False, m\<lparr>m_header := h, m_valid := False\<rparr>)
          else if payload_size a h > 0 then
            (if can_allocate (unat (payload_size a h)) then
               (True, m\<lparr>m_header := h,
                        m_payload := memcpy_from src HEADER_SIZE (unat (payload_size a h)),
                        m_valid := True\<rparr>)
             else (False, m\<lparr>m_header := h, m_valid := False\<rparr>))
          else (True, m\<lparr>m_header := h, m_payload := [], m_valid := True\<rparr>))"

text \<open>\<^verbatim>\<open>bool Message::is_valid() const\<close>.\<close>

definition Message_is_valid :: "abi \<Rightarrow> Message \<Rightarrow> bool" where
  "Message_is_valid a m = (m_valid m \<and> is_valid a (m_header m))"

subsection \<open>Concrete messages\<close>

text \<open>The two allocators of the examples: one that always has memory, one that has
  none. The objects below are built with the source's constructors and setters in zeroed
  storage of the size the ABI gives the header.\<close>

definition alloc_succeeds :: "nat \<Rightarrow> bool" where
  "alloc_succeeds n = True"

definition alloc_fails :: "nat \<Rightarrow> bool" where
  "alloc_fails n = False"

text \<open>\<^verbatim>\<open>Message m;\<close>\<close>

definition fresh_message :: "abi \<Rightarrow> Message" where
  "fresh_message a = Message_init a (zero_storage (sizeof_MessageHeader a)) FRAME_DATA 0 0"

text \<open>\<^verbatim>\<open>Message m; m.set_payload("A", 1);\<close>\<close>

definition one_byte_message :: "abi \<Rightarrow> Message" where
  "one_byte_message a = snd (set_payload alloc_succeeds a [0x41] (fresh_message a))"

text \<open>\<^verbatim>\<open>Message m(MessageType::HEARTBEAT, 0, 42);\<close>\<close>

definition heartbeat_message :: "abi \<Rightarrow> Message" where
  "heartbeat_message a = Message_init a (zero_storage (sizeof_MessageHeader a)) HEARTBEAT 0 42"

text \<open>\<^verbatim>\<open>Message m(MessageType::VIDEO_FRAME, 3, 0x0102030405060708); m.set_payload(d, 3);\<close>
  with \<open>d\<close> the bytes \<open>AA BB CC\<close>: the way \<^verbatim>\<open>MediaProcessor::process_loop\<close>
  builds its messages.\<close>

definition video_message :: "abi \<Rightarrow> Message" where
  "video_message a =
     snd (set_payload alloc_succeeds a [0xAA, 0xBB, 0xCC]
            (Message_init a (zero_storage (sizeof_MessageHeader a)) VIDEO_FRAME 3
               0x0102030405060708))"

text \<open>\<^verbatim>\<open>Message m(MessageType::VIDEO_FRAME, 1024);\<close> before any payload is set.\<close>

definition announced_message :: "abi \<Rightarrow> Message" where
  "announced_message a = Message_init a (zero_storage (sizeof_MessageHeader a)) VIDEO_FRAME 1024 0"

section \<open>Connection: the receive engine (AVServer\_08\_Connection.h)\<close>

text \<open>The part of a connection that the receive engine touches: the ring buffer, the
  connected flag, and the lines it writes to \<^verbatim>\<open>std::cerr\<close> (without the number of
  the connection).\<close>

record Connection =
  m_connected :: bool
  m_recv_buffer :: CircularBuffer
  cerr :: "string list"

text \<open>The receive engine has no \<^verbatim>\<open>try\<close> block: when one of its two
  \<^verbatim>\<open>std::vector\<close> buffers cannot be allocated, \<^verbatim>\<open>std::bad_alloc\<close> leaves the
  function. \<open>Normal r\<close>: the function returns \<open>r\<close>.\<close>

datatype 'a or_exception = Normal 'a | Throws_bad_alloc

text \<open>\<^verbatim>\<open>bool try_extract_message(Message& message)\<close>. \<open>storage\<close> is the stack
  storage of the local \<^verbatim>\<open>MessageHeader header\<close> before its constructor runs,
  \<open>can_allocate n\<close> says whether a vector can get \<open>n\<close> bytes. The result is the
  return value with the caller's message, and the connection.\<close>

definition try_extract_message ::
    "(nat \<Rightarrow> bool) \<Rightarrow> abi \<Rightarrow> byte list \<Rightarrow> Message \<Rightarrow> Connection
       \<Rightarrow> (bool or_exception \<times> Message, Connection) outcome" where
  "try_extract_message can_allocate a storage message c =
     (case available_data (m_recv_buffer c) of
        Blocked rb \<Rightarrow> Blocked (c\<lparr>m_recv_buffer := rb\<rparr>)
      | Returned fill rb \<Rightarrow>
          if fill < HEADER_SIZE then Returned (Normal False, message) (c\<lparr>m_recv_buffer := rb\<rparr>)
          else if \<not> can_allocate HEADER_SIZE then
            Returned (Throws_bad_alloc, message) (c\<lparr>m_recv_buffer := rb\<rparr>)
          else
            (case peek HEADER_SIZE rb of
               Blocked rb \<Rightarrow> Blocked (c\<lparr>m_recv_buffer := rb\<rparr>)
             | Returned header_buf rb \<Rightarrow>
                 if length header_buf \<noteq> HEADER_SIZE then
                   Returned (Normal False, message) (c\<lparr>m_recv_buffer := rb\<rparr>)
                 else
                   let header = deserialize header_buf
                                  (MessageHeader_init a storage (type_code FRAME_DATA) 0 0)
                   in
                   if \<not> is_valid a header then
                     (case clear rb of
                        Blocked rb \<Rightarrow>
                          Blocked (c\<lparr>cerr := cerr c @ [''Invalid message header''],
                                     m_recv_buffer := rb\<rparr>)
                      | Returned _ rb \<Rightarrow>
                          Returned (Normal False, message)
                            (c\<lparr>cerr := cerr c @ [''Invalid message header''],
                               m_recv_buffer := rb\<rparr>))
                   else
                     let total_needed = HEADER_SIZE + unat (payload_size a header) in
                     (case available_data rb of
                        Blocked rb \<Rightarrow> Blocked (c\<lparr>m_recv_buffer := rb\<rparr>)
                      | Returned fill rb \<Rightarrow>
                          if fill < total_needed then
                            Returned (Normal False, message) (c\<lparr>m_recv_buffer := rb\<rparr>)
                          else if \<not> can_allocate total_needed then
                            Returned (Throws_bad_alloc, message) (c\<lparr>m_recv_buffer := rb\<rparr>)
                          else
                            (case cb_read total_needed rb of
                               Blocked rb \<Rightarrow> Blocked (c\<lparr>m_recv_buffer := rb\<rparr>)
                             | Returned msg_data rb \<Rightarrow>
                                 if length msg_data \<noteq> total_needed then
                                   Returned (Normal False, message)
                                     (c\<lparr>cerr := cerr c @ [''Failed to read complete message''],
                                        m_recv_buffer := rb\<rparr>)
                                 else
                                   (case from_bytes can_allocate a msg_data message of
                                      (ok, message') \<Rightarrow>
                                        if \<not> ok then
                                          Returned (Normal False, message')
                                            (c\<lparr>cerr := cerr c @ [''Failed to deserialize message''],
                                               m_recv_buffer := rb\<rparr>)
                                        else
                                          Returned (Normal True, message')
                                            (c\<lparr>m_recv_buffer := rb\<rparr>))))))"

text \<open>\<^verbatim>\<open>bool receive_message(Message& message)\<close>, once \<^verbatim>\<open>::recv\<close> has returned:
  \<open>chunk\<close> are the bytes it has put into \<^verbatim>\<open>recv_buf\<close> (at most 4096), and the empty
  \<open>chunk\<close> stands for a return value of zero or below (the peer has closed, or an
  error). The time of the last activity is not part of the model.\<close>

definition receive_message ::
    "(nat \<Rightarrow> bool) \<Rightarrow> abi \<Rightarrow> byte list \<Rightarrow> byte list \<Rightarrow> Message \<Rightarrow> Connection
       \<Rightarrow> (bool or_exception \<times> Message, Connection) outcome" where
  "receive_message can_allocate a storage chunk message c =
     (if \<not> m_connected c then Returned (Normal False, message) c
      else if length chunk = 0 then Returned (Normal False, message) (c\<lparr>m_connected := False\<rparr>)
      else
        (case cb_write chunk (m_recv_buffer c) of
           Blocked rb \<Rightarrow> Blocked (c\<lparr>m_recv_buffer := rb\<rparr>)
         | Returned written rb \<Rightarrow>
             try_extract_message can_allocate a storage message
               (if written \<noteq> length chunk
                then c\<lparr>cerr := cerr c @ [''Warning: recv_buffer full, dropping data''],
                       m_recv_buffer := rb\<rparr>
                else c\<lparr>m_recv_buffer := rb\<rparr>)))"

text \<open>A connection as the server makes it, with a ring buffer of 32 bytes, and twenty
  bytes that are no header.\<close>

definition new_connection :: Connection where
  "new_connection = \<lparr>m_connected = True, m_recv_buffer = CircularBuffer_init 32, cerr = []\<rparr>"

definition stream_garbage :: "byte list" where
  "stream_garbage = replicate 20 0xFF"

text \<open>The same connection with the twenty bytes in its ring buffer, as the statements of
  \<^verbatim>\<open>write\<close> store them.\<close>

definition connection_holding_garbage :: Connection where
  "connection_holding_garbage =
     new_connection\<lparr>m_recv_buffer := snd (write_rest 0 stream_garbage (CircularBuffer_init 32))\<rparr>"

section \<open>AVFrame (AVServer\_03\_FrameBuffer.h) and CompressionEngine (AVServer\_14\_CompressionEngine.h)\<close>

datatype FrameType = VIDEO_I_FRAME | VIDEO_P_FRAME | VIDEO_B_FRAME | AUDIO_FRAME_T

datatype CodecType = H264 | H265 | VP9 | AAC | MP3

text \<open>The fields of \<^verbatim>\<open>struct AVFrame\<close>, each with the prefix \<open>av_\<close> (several of the
  source's names, as \<^verbatim>\<open>size\<close> and \<^verbatim>\<open>timestamp\<close>, are taken). The enumerator
  \<^verbatim>\<open>FrameType::AUDIO_FRAME\<close> is \<open>AUDIO_FRAME_T\<close>.\<close>

record AVFrame =
  av_frame_type :: FrameType
  av_codec_type :: CodecType
  av_width :: "32 word"
  av_height :: "32 word"
  av_sample_rate :: "32 word"
  av_channels :: "32 word"
  av_timestamp :: "64 word"
  av_pts :: "64 word"
  av_data :: "byte list"
  av_size :: "32 word"
  av_bitrate :: "32 word"
  av_quality :: "8 word"

text \<open>\<^verbatim>\<open>AVFrame(type, codec, capacity)\<close> and \<^verbatim>\<open>void clear()\<close>.\<close>

definition AVFrame_init :: "FrameType \<Rightarrow> CodecType \<Rightarrow> AVFrame" where
  "AVFrame_init t codec =
     \<lparr>av_frame_type = t, av_codec_type = codec, av_width = 0, av_height = 0,
      av_sample_rate = 0, av_channels = 0, av_timestamp = 0, av_pts = 0, av_data = [],
      av_size = 0, av_bitrate = 0, av_quality = 80\<rparr>"

definition clear_frame :: "AVFrame \<Rightarrow> AVFrame" where
  "clear_frame f = f\<lparr>av_data := [], av_size := 0, av_timestamp := 0, av_pts := 0\<rparr>"

text \<open>\<^verbatim>\<open>std::vector<uint8_t>::resize(n)\<close>: cut, or fill up with zero bytes.\<close>

definition resize :: "nat \<Rightarrow> byte list \<Rightarrow> byte list" where
  "resize n xs = take n xs @ replicate (n - length xs) 0"

text \<open>\<^verbatim>\<open>struct CompressionConfig\<close> with the defaults of its constructor.\<close>

record CompressionConfig =
  compression_level :: int
  quality :: int
  target_bitrate :: "32 word"
  enable_adaptive_bitrate :: bool
  enable_hardware_acceleration :: bool
  target_framerate :: "32 word"
  keyframe_interval :: int

definition CompressionConfig_init :: CompressionConfig where
  "CompressionConfig_init =
     \<lparr>compression_level = 6, quality = 80, target_bitrate = 5000000,
      enable_adaptive_bitrate = True, enable_hardware_acceleration = False,
      target_framerate = 30, keyframe_interval = 2\<rparr>"

text \<open>The engine: its configuration, the running flag and the integer counters of
  \<^verbatim>\<open>EncodingStatistics\<close>. The averages of the statistics (\<^verbatim>\<open>double\<close> values derived
  from \<^verbatim>\<open>steady_clock\<close>) are not part of the model; no output frame depends on them.\<close>

record CompressionEngine =
  m_config :: CompressionConfig
  m_is_running :: bool
  m_frame_count :: "64 word"
  total_frames_processed :: "64 word"
  total_frames_encoded :: "64 word"
  total_input_bytes :: "64 word"
  total_output_bytes :: "64 word"

definition CompressionEngine_init :: "CompressionConfig \<Rightarrow> CompressionEngine" where
  "CompressionEngine_init config =
     \<lparr>m_config = config, m_is_running = False, m_frame_count = 0,
      total_frames_processed = 0, total_frames_encoded = 0,
      total_input_bytes = 0, total_output_bytes = 0\<rparr>"

definition start_engine :: "CompressionEngine \<Rightarrow> bool \<times> CompressionEngine" where
  "start_engine e = (True, e\<lparr>m_is_running := True\<rparr>)"

definition set_quality :: "int \<Rightarrow> CompressionEngine \<Rightarrow> CompressionEngine" where
  "set_quality q e = e\<lparr>m_config := (m_config e)\<lparr>quality := max 0 (min 100 q)\<rparr>\<rparr>"

subsection \<open>The arithmetic of \<^verbatim>\<open>compress_data\<close>\<close>

text \<open>
  \<^verbatim>\<open>static_cast<uint32_t>(original_size * compression_ratio)\<close> converts the size to
  \<^verbatim>\<open>double\<close> (exactly: it is below \<open>2^32\<close>), multiplies two doubles and truncates.
  The model computes this exactly, for IEEE 754 binary64 with rounding to nearest, ties
  to even (the arithmetic of SSE2 and AArch64). A positive double constant is the pair
  \<open>(m, s)\<close> of its value \<open>m / 2^s\<close>; the exact product of the integer \<open>n\<close>
  with it is \<open>n * m / 2^s\<close>, and the multiplication returns that product rounded to
  53 significant bits.

  The constants are the doubles that a compiler reads from the literals:
  \<open>0.75 = 3 / 2^2\<close>;
  \<open>0.60\<close> is \<open>0x3FE3333333333333 = 5404319552844595 / 2^53\<close> (just below 3/5);
  \<open>0.40\<close> is \<open>0x3FD999999999999A = 3602879701896397 / 2^53\<close> (just above 2/5).
\<close>

definition round_exponent :: "nat \<Rightarrow> nat" where
  "round_exponent p = floorlog 2 p - 53"

definition round_to_53_bits :: "nat \<Rightarrow> nat" where
  "round_to_53_bits p =
     (let e = round_exponent p; q = p div 2 ^ e; r = p mod 2 ^ e
      in if 2 * r > 2 ^ e \<or> (2 * r = 2 ^ e \<and> odd q) then (q + 1) * 2 ^ e else q * 2 ^ e)"

definition mul_double_to_uint32 :: "32 word \<Rightarrow> nat \<times> nat \<Rightarrow> 32 word" where
  "mul_double_to_uint32 n c = of_nat (round_to_53_bits (unat n * fst c) div 2 ^ snd c)"

definition ratio_high :: "nat \<times> nat" where
  "ratio_high = (3, 2)"

definition ratio_medium :: "nat \<times> nat" where
  "ratio_medium = (5404319552844595, 53)"

definition ratio_low :: "nat \<times> nat" where
  "ratio_low = (3602879701896397, 53)"

text \<open>\<^verbatim>\<open>uint32_t compress_data(uint32_t original_size) const\<close>.\<close>

definition compress_data :: "CompressionEngine \<Rightarrow> 32 word \<Rightarrow> 32 word" where
  "compress_data e original_size =
     (let compression_ratio =
            (if quality (m_config e) \<ge> 80 then ratio_high
             else if quality (m_config e) \<ge> 50 then ratio_medium
             else ratio_low)
      in mul_double_to_uint32 original_size compression_ratio)"

text \<open>\<^verbatim>\<open>update_stats\<close>, the integer counters.\<close>

definition update_stats :: "AVFrame \<Rightarrow> AVFrame \<Rightarrow> CompressionEngine \<Rightarrow> CompressionEngine" where
  "update_stats input output e =
     e\<lparr>total_frames_processed := total_frames_processed e + 1,
       total_frames_encoded := total_frames_encoded e + 1,
       total_input_bytes := total_input_bytes e + ucast (av_size input),
       total_output_bytes := total_output_bytes e + ucast (av_size output),
       m_frame_count := m_frame_count e + 1\<rparr>"

text \<open>\<^verbatim>\<open>bool encode_video(const shared_ptr<AVFrame>& input, shared_ptr<AVFrame>& output)\<close>.
  A null pointer is \<open>None\<close>. The result is the return value, the output frame and the
  engine. \<^verbatim>\<open>output->quality = config_.quality\<close> converts \<^verbatim>\<open>int\<close> to
  \<^verbatim>\<open>uint8_t\<close>.\<close>

definition encode_video ::
    "CompressionEngine \<Rightarrow> AVFrame option \<Rightarrow> AVFrame option
       \<Rightarrow> bool \<times> AVFrame option \<times> CompressionEngine" where
  "encode_video e input output =
     (case (input, output) of
        (Some i, Some out) \<Rightarrow>
          if \<not> m_is_running e then (False, output, e)
          else
            let original_size = (av_width i * av_height i * 3) div 2;
                compressed_size = compress_data e original_size;
                out' = out\<lparr>av_frame_type := VIDEO_I_FRAME,
                          av_codec_type := av_codec_type i,
                          av_width := av_width i,
                          av_height := av_height i,
                          av_bitrate := target_bitrate (m_config e),
                          av_quality := of_int (quality (m_config e)),
                          av_timestamp := av_timestamp i,
                          av_data := resize (unat compressed_size) (av_data out),
                          av_size := compressed_size\<rparr>
            in (True, Some out', update_stats i out' e)
      | _ \<Rightarrow> (False, output, e))"

text \<open>\<^verbatim>\<open>bool encode_audio(...)\<close>.\<close>

definition encode_audio ::
    "CompressionEngine \<Rightarrow> AVFrame option \<Rightarrow> AVFrame option
       \<Rightarrow> bool \<times> AVFrame option \<times> CompressionEngine" where
  "encode_audio e input output =
     (case (input, output) of
        (Some i, Some out) \<Rightarrow>
          if \<not> m_is_running e then (False, output, e)
          else
            let original_size = av_size i;
                compressed_size = compress_data e original_size;
                out' = out\<lparr>av_frame_type := AUDIO_FRAME_T,
                          av_codec_type := av_codec_type i,
                          av_sample_rate := av_sample_rate i,
                          av_channels := av_channels i,
                          av_bitrate := target_bitrate (m_config e),
                          av_quality := of_int (quality (m_config e)),
                          av_timestamp := av_timestamp i,
                          av_data := resize (unat compressed_size) (av_data out),
                          av_size := compressed_size\<rparr>
            in (True, Some out', update_stats i out' e)
      | _ \<Rightarrow> (False, output, e))"

subsection \<open>A frame as the video capture produces it\<close>

text \<open>\<^verbatim>\<open>VideoCapture::capture_frame\<close> (AVServer\_11\_VideoCapture.h) with the fields of
  \<^verbatim>\<open>VideoCaptureConfig\<close> it reads as arguments; \<open>now\<close> is the clock. The frame's data
  is capped at 100000 bytes.\<close>

definition capture_frame ::
    "32 word \<Rightarrow> 32 word \<Rightarrow> CodecType \<Rightarrow> 32 word \<Rightarrow> 8 word \<Rightarrow> 64 word \<Rightarrow> AVFrame \<Rightarrow> AVFrame" where
  "capture_frame cfg_width cfg_height cfg_codec cfg_bitrate cfg_quality now frame =
     (let frame_size = (cfg_width * cfg_height * 3) div 2;
          d = resize (unat (min frame_size 100000)) (av_data frame)
      in frame\<lparr>av_frame_type := VIDEO_I_FRAME, av_codec_type := cfg_codec,
               av_width := cfg_width, av_height := cfg_height,
               av_bitrate := cfg_bitrate, av_quality := cfg_quality,
               av_timestamp := now, av_data := d, av_size := of_nat (length d)\<rparr>)"

text \<open>The frame of the default configuration (1920 x 1080, H.264, 5 Mbps, quality 80),
  captured at time 1000 into a fresh pool frame.\<close>

definition default_video_frame :: AVFrame where
  "default_video_frame =
     capture_frame 1920 1080 H264 5000000 80 1000 (clear_frame (AVFrame_init VIDEO_I_FRAME H264))"

definition running_engine :: "int \<Rightarrow> CompressionEngine" where
  "running_engine q =
     snd (start_engine (CompressionEngine_init (CompressionConfig_init\<lparr>quality := q\<rparr>)))"

text \<open>\<^verbatim>\<open>AudioCapture::capture_frame\<close> (AVServer\_12\_AudioCapture.h): 960 samples of
  2 bytes for each channel.\<close>

definition capture_audio_frame ::
    "32 word \<Rightarrow> 32 word \<Rightarrow> CodecType \<Rightarrow> 32 word \<Rightarrow> 8 word \<Rightarrow> 64 word \<Rightarrow> AVFrame \<Rightarrow> AVFrame" where
  "capture_audio_frame cfg_sample_rate cfg_channels cfg_codec cfg_bitrate cfg_quality now frame =
     (let samples_per_frame = 960;
          sample_size = 2;
          frame_size = samples_per_frame * sample_size * cfg_channels;
          d = resize (unat (min frame_size 100000)) (av_data frame)
      in frame\<lparr>av_frame_type := AUDIO_FRAME_T, av_codec_type := cfg_codec,
               av_sample_rate := cfg_sample_rate, av_channels := cfg_channels,
               av_bitrate := cfg_bitrate, av_quality := cfg_quality,
               av_timestamp := now, av_data := d, av_size := of_nat (length d)\<rparr>)"

text \<open>The frame of the default configuration (48 kHz, stereo, AAC, 128 kbps, quality 90),
  captured at time 1020 into a fresh pool frame.\<close>

definition default_audio_frame :: AVFrame where
  "default_audio_frame =
     capture_audio_frame 48000 2 AAC 128000 90 1020 (clear_frame (AVFrame_init VIDEO_I_FRAME H264))"

text \<open>A fresh frame of the encoder's pool (\<^verbatim>\<open>FrameBufferPool::get\<close> clears the frame
  it hands out).\<close>

definition pool_frame :: AVFrame where
  "pool_frame = clear_frame (AVFrame_init VIDEO_I_FRAME H264)"

subsection \<open>The documented size of an encoded frame\<close>

text \<open>The documentation of \<^verbatim>\<open>compress_data\<close> gives the output as a fraction of the
  original size: 0.75 for a quality of 80 and above, 0.60 from 50 to 79, 0.40 below. As a
  function on integers (the result is a \<^verbatim>\<open>uint32_t\<close>) this is the integer part of
  the exact fraction. It is not taken from the code; the code computes with doubles.\<close>

definition tier_fraction :: "int \<Rightarrow> nat \<Rightarrow> nat" where
  "tier_fraction q n =
     (if q \<ge> 80 then 3 * n div 4 else if q \<ge> 50 then 3 * n div 5 else 2 * n div 5)"

section \<open>MediaProcessor (AVServer\_15\_MediaProcessor.h)\<close>

text \<open>\<^verbatim>\<open>class FrameBufferPool\<close> (AVServer\_03\_FrameBuffer.h): the queue of available
  frames and its nominal size. \<^verbatim>\<open>get\<close> makes a new frame when the pool is empty and
  clears the frame it returns; \<^verbatim>\<open>return_frame\<close> clears the frame and drops it when
  the pool is full.\<close>

record FrameBufferPool =
  m_pool_size :: nat
  m_available_frames :: "AVFrame list"

definition FrameBufferPool_init :: "nat \<Rightarrow> FrameBufferPool" where
  "FrameBufferPool_init pool_size =
     \<lparr>m_pool_size = pool_size,
      m_available_frames = replicate pool_size (AVFrame_init VIDEO_I_FRAME H264)\<rparr>"

definition pool_get :: "FrameBufferPool \<Rightarrow> AVFrame \<times> FrameBufferPool" where
  "pool_get p =
     (case m_available_frames p of
        [] \<Rightarrow> (clear_frame (AVFrame_init VIDEO_I_FRAME H264), p)
      | frame # rest \<Rightarrow> (clear_frame frame, p\<lparr>m_available_frames := rest\<rparr>))"

definition return_frame :: "AVFrame \<Rightarrow> FrameBufferPool \<Rightarrow> FrameBufferPool" where
  "return_frame frame p =
     (if length (m_available_frames p) < m_pool_size p
      then p\<lparr>m_available_frames := m_available_frames p @ [clear_frame frame]\<rparr>
      else p)"

text \<open>The processor: the compression engine it points to, its message queue (a
  \<^verbatim>\<open>SafeQueue<Message>\<close>, made by the constructor), the frame pool of
  \<^verbatim>\<open>process_loop\<close> and the counters of \<^verbatim>\<open>ProcessingStatistics\<close> that the loop
  updates. The capture manager is the environment: what \<^verbatim>\<open>try_get_video_frame\<close> and
  \<^verbatim>\<open>try_get_audio_frame\<close> return in an iteration is an argument of the iteration.\<close>

record MediaProcessor =
  m_compress_engine :: CompressionEngine
  m_message_queue :: "Message SafeQueue"
  m_frame_pool :: FrameBufferPool
  total_video_frames :: "64 word"
  total_audio_frames :: "64 word"
  total_messages_sent :: "64 word"
  total_video_bytes_sent :: "64 word"
  total_audio_bytes_sent :: "64 word"

definition MediaProcessor_init :: "CompressionEngine \<Rightarrow> MediaProcessor" where
  "MediaProcessor_init compress_engine =
     \<lparr>m_compress_engine = compress_engine, m_message_queue = SafeQueue_init,
      m_frame_pool = FrameBufferPool_init 30,
      total_video_frames = 0, total_audio_frames = 0, total_messages_sent = 0,
      total_video_bytes_sent = 0, total_audio_bytes_sent = 0\<rparr>"

text \<open>The first half of the body of the loop in \<^verbatim>\<open>process_loop\<close>: the video frame.
  \<open>raw_video\<close> is the result of \<^verbatim>\<open>try_get_video_frame\<close>, \<open>now\<close> the clock,
  \<open>storage\<close> the memory in which the local \<^verbatim>\<open>Message msg\<close> is constructed. The
  return value of \<^verbatim>\<open>set_payload\<close> is ignored, and the message is pushed without a
  look at the queue. A frame that failed to encode is not returned to the pool.\<close>

definition process_video ::
    "(nat \<Rightarrow> bool) \<Rightarrow> abi \<Rightarrow> byte list \<Rightarrow> 64 word \<Rightarrow> AVFrame option
       \<Rightarrow> MediaProcessor \<Rightarrow> MediaProcessor" where
  "process_video can_allocate a storage now raw_video p =
     (case raw_video of
        None \<Rightarrow> p
      | Some raw \<Rightarrow>
          (case pool_get (m_frame_pool p) of
             (frame, pool) \<Rightarrow>
               (case encode_video (m_compress_engine p) raw_video (Some frame) of
                  (True, Some encoded_video, engine) \<Rightarrow>
                    let msg = Message_init a storage VIDEO_FRAME (av_size encoded_video) now;
                        msg = snd (set_payload can_allocate a
                                 (take (unat (av_size encoded_video)) (av_data encoded_video)) msg)
                    in p\<lparr>m_compress_engine := engine,
                         m_message_queue := push msg (m_message_queue p),
                         total_video_frames := total_video_frames p + 1,
                         total_video_bytes_sent :=
                           total_video_bytes_sent p + ucast (av_size encoded_video),
                         total_messages_sent := total_messages_sent p + 1,
                         m_frame_pool := return_frame encoded_video pool\<rparr>
                | (_, _, engine) \<Rightarrow> p\<lparr>m_compress_engine := engine, m_frame_pool := pool\<rparr>)))"

text \<open>The second half: the audio frame.\<close>

definition process_audio ::
    "(nat \<Rightarrow> bool) \<Rightarrow> abi \<Rightarrow> byte list \<Rightarrow> 64 word \<Rightarrow> AVFrame option
       \<Rightarrow> MediaProcessor \<Rightarrow> MediaProcessor" where
  "process_audio can_allocate a storage now raw_audio p =
     (case raw_audio of
        None \<Rightarrow> p
      | Some raw \<Rightarrow>
          (case pool_get (m_frame_pool p) of
             (frame, pool) \<Rightarrow>
               (case encode_audio (m_compress_engine p) raw_audio (Some frame) of
                  (True, Some encoded_audio, engine) \<Rightarrow>
                    let msg = Message_init a storage AUDIO_FRAME (av_size encoded_audio) now;
                        msg = snd (set_payload can_allocate a
                                 (take (unat (av_size encoded_audio)) (av_data encoded_audio)) msg)
                    in p\<lparr>m_compress_engine := engine,
                         m_message_queue := push msg (m_message_queue p),
                         total_audio_frames := total_audio_frames p + 1,
                         total_audio_bytes_sent :=
                           total_audio_bytes_sent p + ucast (av_size encoded_audio),
                         total_messages_sent := total_messages_sent p + 1,
                         m_frame_pool := return_frame encoded_audio pool\<rparr>
                | (_, _, engine) \<Rightarrow> p\<lparr>m_compress_engine := engine, m_frame_pool := pool\<rparr>)))"

text \<open>One iteration of the loop, with the two readings of the clock. The pause of one millisecond when there was no frame
  takes time and changes no state.\<close>

definition process_iteration ::
    "(nat \<Rightarrow> bool) \<Rightarrow> abi \<Rightarrow> byte list \<Rightarrow> 64 word \<Rightarrow> 64 word
       \<Rightarrow> AVFrame option \<Rightarrow> AVFrame option \<Rightarrow> MediaProcessor \<Rightarrow> MediaProcessor" where
  "process_iteration can_allocate a storage now_video now_audio raw_video raw_audio p =
     process_audio can_allocate a storage now_audio raw_audio
       (process_video can_allocate a storage now_video raw_video p)"

text \<open>\<^verbatim>\<open>size_t get_queue_size() const\<close> and \<^verbatim>\<open>try_get_message\<close>, the consumer's
  side of the queue (\<open>None\<close> for \<^verbatim>\<open>nullptr\<close>).\<close>

definition get_queue_size :: "MediaProcessor \<Rightarrow> nat" where
  "get_queue_size p = queue_size (m_message_queue p)"

definition try_get_message :: "abi \<Rightarrow> MediaProcessor \<Rightarrow> Message option \<times> MediaProcessor" where
  "try_get_message a p =
     (case try_pop (m_message_queue p) (fresh_message a) of
        (True, msg, q) \<Rightarrow> (Some msg, p\<lparr>m_message_queue := q\<rparr>)
      | (False, _, q) \<Rightarrow> (None, p\<lparr>m_message_queue := q\<rparr>))"

text \<open>The processor with a running engine of the default configuration, and the loop
  running for \<open>n\<close> iterations in each of which the capture delivers the default video
  frame and no audio frame, while no consumer takes a message.\<close>

definition default_processor :: MediaProcessor where
  "default_processor = MediaProcessor_init (running_engine 80)"

definition produce :: "nat \<Rightarrow> MediaProcessor" where
  "produce n =
     ((process_iteration alloc_succeeds packed (zero_storage 20) 1000 1000
         (Some default_video_frame) None) ^^ n) default_processor"

section \<open>Connection::send and the distribution loop of AVServer\<close>

text \<open>The socket of a connection as \<^verbatim>\<open>Connection::send\<close> sees it. In the source the
  sockets are in blocking mode (no \<^verbatim>\<open>O_NONBLOCK\<close>, no send timeout is ever set), so
  \<^verbatim>\<open>::send(socket_, data, remaining, 0)\<close> either returns a number of bytes it has
  accepted, returns zero or a negative number for an error, or waits for room in the
  send buffer as long as the peer does not read. \<open>sock_send s accepted remaining\<close> is
  what the call does when the socket has accepted \<open>accepted\<close> bytes so far: \<open>None\<close>
  when it does not return. \<open>sock_accepted\<close> are the bytes the socket has taken.\<close>

record Socket =
  sock_send :: "nat \<Rightarrow> nat \<Rightarrow> int option"
  sock_accepted :: "byte list"

text \<open>The connection with its socket.\<close>

record Endpoint = Connection +
  m_socket :: Socket

text \<open>The loop of \<^verbatim>\<open>Connection::send\<close>: \<open>data\<close> are the bytes from
  \<^verbatim>\<open>data + total_sent\<close> on, \<^verbatim>\<open>remaining\<close> is their number.\<close>

function send_loop :: "Socket \<Rightarrow> byte list \<Rightarrow> (bool, Socket) outcome" where
  "send_loop sock data =
     (if length data > 0 then
        (case sock_send sock (length (sock_accepted sock)) (length data) of
           None \<Rightarrow> Blocked sock
         | Some sent \<Rightarrow>
             if sent \<le> 0 then Returned False sock
             else send_loop (sock\<lparr>sock_accepted := sock_accepted sock @ take (nat sent) data\<rparr>)
                    (drop (nat sent) data))
      else Returned True sock)"
  by pat_completeness auto
termination
  by (relation "measure (\<lambda>(sock, data). length data)") auto

declare send_loop.simps [simp del]

text \<open>\<^verbatim>\<open>bool send(const Message& message)\<close>. The line written to \<^verbatim>\<open>std::cerr\<close> is
  without the number of the connection.\<close>

definition send :: "Message \<Rightarrow> Endpoint \<Rightarrow> (bool, Endpoint) outcome" where
  "send message c =
     (if \<not> m_connected c then Returned False c
      else
        (case send_loop (m_socket c) (to_bytes message) of
           Blocked sock \<Rightarrow> Blocked (c\<lparr>m_socket := sock\<rparr>)
         | Returned False sock \<Rightarrow>
             Returned False
               (c\<lparr>m_connected := False, m_socket := sock,
                  cerr := cerr c @ [''Failed to send message on connection'']\<rparr>)
         | Returned True sock \<Rightarrow> Returned True (c\<lparr>m_socket := sock\<rparr>)))"

text \<open>\<^verbatim>\<open>struct ClientSession\<close> (AVServer\_16\_StreamingService.h), the fields that the
  distribution reads.\<close>

record ClientSession =
  client_id :: "32 word"
  is_active :: bool

text \<open>The counters of \<^verbatim>\<open>ServerStatistics\<close> that the distribution updates.\<close>

record ServerStatistics =
  stats_total_messages_sent :: "64 word"
  stats_total_bytes_sent :: "64 word"
  stats_video_frames_sent :: "64 word"
  stats_audio_frames_sent :: "64 word"

text \<open>The server: the connections of its \<^verbatim>\<open>TcpServer\<close> by their id, the clients of
  its \<^verbatim>\<open>StreamingService\<close> (a \<^verbatim>\<open>std::map\<close>: the list of its entries in the order
  of the keys, in which the loop visits them), the media processor and the statistics.\<close>

record AVServer =
  m_connections :: "32 word \<rightharpoonup> Endpoint"
  m_clients :: "(32 word \<times> ClientSession) list"
  m_media_processor :: MediaProcessor
  m_stats :: ServerStatistics

text \<open>\<^verbatim>\<open>TcpServer::get_connection\<close>.\<close>

definition get_connection :: "AVServer \<Rightarrow> 32 word \<Rightarrow> Endpoint option" where
  "get_connection srv connection_id = m_connections srv connection_id"

text \<open>The statistics block that follows a \<^verbatim>\<open>conn->send(*msg)\<close>.\<close>

definition count_sent :: "abi \<Rightarrow> Message \<Rightarrow> ServerStatistics \<Rightarrow> ServerStatistics" where
  "count_sent a msg st =
     (let st = (if get_type_code a msg = type_code VIDEO_FRAME
                then st\<lparr>stats_video_frames_sent := stats_video_frames_sent st + 1\<rparr>
                else if get_type_code a msg = type_code AUDIO_FRAME
                then st\<lparr>stats_audio_frames_sent := stats_audio_frames_sent st + 1\<rparr>
                else st)
      in st\<lparr>stats_total_messages_sent := stats_total_messages_sent st + 1,
            stats_total_bytes_sent := stats_total_bytes_sent st + of_nat (length (to_bytes msg))\<rparr>)"

text \<open>The \<^verbatim>\<open>for\<close> loop of \<^verbatim>\<open>AVServer::distribution_loop\<close> over the clients, in the one
  thread of the distribution (\<open>key\<close> is the loop's \<^verbatim>\<open>client_id\<close>): for an active
  client with a connection,
  \<^verbatim>\<open>conn->send(*msg)\<close>, its result ignored, then the statistics.\<close>

fun distribute ::
    "abi \<Rightarrow> Message \<Rightarrow> (32 word \<times> ClientSession) list \<Rightarrow> AVServer \<Rightarrow> (unit, AVServer) outcome" where
  "distribute a msg [] srv = Returned () srv"
| "distribute a msg ((key, session) # clients) srv =
     (if is_active session then
        (case get_connection srv key of
           None \<Rightarrow> distribute a msg clients srv
         | Some conn \<Rightarrow>
             (case send msg conn of
                Blocked conn' \<Rightarrow>
                  Blocked (srv\<lparr>m_connections := (m_connections srv)(key \<mapsto> conn')\<rparr>)
              | Returned ok conn' \<Rightarrow>
                  distribute a msg clients
                    (srv\<lparr>m_connections := (m_connections srv)(key \<mapsto> conn'),
                         m_stats := count_sent a msg (m_stats srv)\<rparr>)))
      else distribute a msg clients srv)"

text \<open>One iteration of \<^verbatim>\<open>distribution_loop\<close> (processor and streaming service being
  there): take a message from the processor, if there is one, and send it to the clients.
  The pause of 5 ms when the queue is empty changes no state.\<close>

definition distribution_iteration :: "abi \<Rightarrow> AVServer \<Rightarrow> (unit, AVServer) outcome" where
  "distribution_iteration a srv =
     (case try_get_message a (m_media_processor srv) of
        (Some msg, p) \<Rightarrow> distribute a msg (m_clients srv) (srv\<lparr>m_media_processor := p\<rparr>)
      | (None, p) \<Rightarrow> Returned () (srv\<lparr>m_media_processor := p\<rparr>))"

text \<open>The bytes of the message that have reached the socket of a client.\<close>

definition accepted_by :: "AVServer \<Rightarrow> 32 word \<Rightarrow> byte list" where
  "accepted_by srv connection_id =
     (case m_connections srv connection_id of
        None \<Rightarrow> []
      | Some conn \<Rightarrow> sock_accepted (m_socket conn))"

text \<open>Two sockets: one whose peer reads everything at once, and one whose peer has
  stopped reading and whose send buffer is full.\<close>

definition healthy_socket :: Socket where
  "healthy_socket = \<lparr>sock_send = (\<lambda>accepted remaining. Some (int remaining)), sock_accepted = []\<rparr>"

definition stuck_socket :: Socket where
  "stuck_socket = \<lparr>sock_send = (\<lambda>accepted remaining. None), sock_accepted = []\<rparr>"

definition endpoint :: "Socket \<Rightarrow> Endpoint" where
  "endpoint sock =
     \<lparr>m_connected = True, m_recv_buffer = CircularBuffer_init 32, cerr = [], m_socket = sock\<rparr>"

text \<open>A server with the clients 1 and 2, both active: the socket of client 1 is stuck,
  the one of client 2 healthy. The queue of the processor holds one video message.\<close>

definition two_clients :: AVServer where
  "two_clients =
     \<lparr>m_connections = [1 \<mapsto> endpoint stuck_socket, 2 \<mapsto> endpoint healthy_socket],
      m_clients = [(1, \<lparr>client_id = 1, is_active = True\<rparr>),
                   (2, \<lparr>client_id = 2, is_active = True\<rparr>)],
      m_media_processor =
        default_processor\<lparr>m_message_queue := push (video_message packed) SafeQueue_init\<rparr>,
      m_stats = \<lparr>stats_total_messages_sent = 0, stats_total_bytes_sent = 0,
                 stats_video_frames_sent = 0, stats_audio_frames_sent = 0\<rparr>\<rparr>"

text \<open>The same with the clients in the other roles: client 1 healthy, client 2 stuck.\<close>

definition two_clients_swapped :: AVServer where
  "two_clients_swapped =
     two_clients\<lparr>m_connections := [1 \<mapsto> endpoint healthy_socket, 2 \<mapsto> endpoint stuck_socket]\<rparr>"

chapter \<open>The A/V streaming server: properties\<close>

section \<open>SafeQueue: draining a queue that is shut down\<close>

lemma pops_drain:
  "m_shutdown q \<Longrightarrow>
   pops (Suc (length (m_queue q))) q v =
     Some (map (\<lambda>x. (True, x)) (m_queue q) @ [(False, last (v # m_queue q))],
           q\<lparr>m_queue := []\<rparr>)"
proof (induction "m_queue q" arbitrary: q v)
  case Nil
  then show ?case
    by (simp add: pop_def wait_predicate_def)
next
  case (Cons x xs)
  let ?q' = "q\<lparr>m_queue := xs\<rparr>"
  have q: "m_queue q = x # xs"
    using Cons.hyps(2) by simp
  have step: "pop q v = Some (True, x, ?q')"
    by (simp add: pop_def wait_predicate_def q)
  have "xs = m_queue ?q'" and "m_shutdown ?q'"
    using Cons.prems by simp_all
  then have "pops (Suc (length (m_queue ?q'))) ?q' x =
      Some (map (\<lambda>x. (True, x)) (m_queue ?q') @ [(False, last (x # m_queue ?q'))],
            ?q'\<lparr>m_queue := []\<rparr>)"
    by (rule Cons.hyps(1))
  then have rest: "pops (Suc (length xs)) ?q' x =
      Some (map (\<lambda>x. (True, x)) xs @ [(False, last (x # xs))], q\<lparr>m_queue := []\<rparr>)"
    by simp
  have "pops (Suc (Suc (length xs))) q v =
      Some ((True, x) # (map (\<lambda>x. (True, x)) xs @ [(False, last (x # xs))]),
            q\<lparr>m_queue := []\<rparr>)"
    using step rest by (simp del: pops.simps(2) add: pops.simps(2) [of "Suc (length xs)"])
  then show ?case
    by (simp add: q del: pops.simps)
qed

text \<open>What \<^verbatim>\<open>push\<close> and \<^verbatim>\<open>shutdown\<close> do to the members and to the threads.\<close>

lemma push_fields:
  "m_queue (push v q) = m_queue q @ [v]"
  "m_shutdown (push v q) = m_shutdown q"
  by (simp_all add: push_def notify_one_def split: list.split)

lemma shutdown_fields:
  "m_queue (shutdown q) = m_queue q"
  "m_shutdown (shutdown q)"
  "m_waiting (shutdown q) = []"
  "m_woken (shutdown q) = m_woken q @ m_waiting q"
  by (simp_all add: shutdown_def notify_all_def)

lemma shutdown_funpow: "(shutdown ^^ Suc n) q = shutdown q"
  by (induction n) (simp_all add: shutdown_def notify_all_def)

lemma push_shutdown_commute: "push x (shutdown q) = shutdown (push x q)"
  by (simp add: push_def shutdown_def notify_one_def notify_all_def split: list.split)

text \<open>On a queue that is shut down a released thread returns from \<^verbatim>\<open>pop\<close>, with the
  next item or, when there is none, with false; no thread is left in the wait.\<close>

lemma pop_wakes_shut_down:
  assumes "m_shutdown q" and "m_waiting q = []"
  shows "fst (pop_wakes ts v q) =
           zip ts (map (\<lambda>x. Some (True, x)) (m_queue q)
                   @ replicate (length ts - length (m_queue q)) (Some (False, v)))
         \<and> m_waiting (snd (pop_wakes ts v q)) = []"
  using assms
proof (induction ts arbitrary: q)
  case Nil
  then show ?case by simp
next
  case (Cons t ts)
  let ?q = "q\<lparr>m_woken := remove1 t (m_woken q)\<rparr>"
  show ?case
  proof (cases "m_queue q")
    case Nil
    have wake: "pop_wake t v q = Returned (False, v) ?q"
      using Cons.prems Nil by (simp add: pop_wake_def pop_call_def pop_def wait_predicate_def)
    have "m_shutdown ?q" "m_waiting ?q = []" "m_queue ?q = []"
      using Cons.prems Nil by simp_all
    with Cons.IH [of ?q] have
      "fst (pop_wakes ts v ?q) = zip ts (replicate (length ts) (Some (False, v)))"
      "m_waiting (snd (pop_wakes ts v ?q)) = []"
      by simp_all
    then show ?thesis
      using Nil by (cases "pop_wakes ts v ?q") (simp add: wake)
  next
    case (Cons x xs)
    let ?q' = "?q\<lparr>m_queue := xs\<rparr>"
    have wake: "pop_wake t v q = Returned (True, x) ?q'"
      using Cons.prems Cons by (simp add: pop_wake_def pop_call_def pop_def wait_predicate_def)
    have "m_shutdown ?q'" "m_waiting ?q'= []" "m_queue ?q' = xs"
      using Cons.prems by simp_all
    with Cons.IH [of ?q'] have
      "fst (pop_wakes ts v ?q') =
         zip ts (map (\<lambda>x. Some (True, x)) xs
                 @ replicate (length ts - length xs) (Some (False, v)))"
      "m_waiting (snd (pop_wakes ts v ?q')) = []"
      by simp_all
    then show ?thesis
      using Cons by (cases "pop_wakes ts v ?q'") (simp add: wake)
  qed
qed

text \<open>
  Claim C9. \<^verbatim>\<open>shutdown()\<close> is idempotent: any number of calls (at least one) leaves
  the queue, its flag and the threads as one call does. It wakes every waiter: after it
  no thread is blocked in the wait of \<^verbatim>\<open>pop\<close>, all that were blocked are released,
  and whichever released threads \<open>ts\<close> run, in whatever order, each of them returns
  from \<^verbatim>\<open>pop\<close> and none blocks again: as long as items remain a thread gets the next
  item with result true, the others get false. The wait predicate holds whatever the
  queue contains, so no later \<^verbatim>\<open>pop\<close> blocks either. From then on \<^verbatim>\<open>pop\<close>
  returns the remaining items in FIFO order, each with result true, and once the queue
  is empty it returns false (leaving the caller's variable as it was).
\<close>

theorem shutdown_idempotent_wakes_and_drains:
  "(shutdown ^^ Suc n) q = shutdown q
   \<and> m_waiting (shutdown q) = []
   \<and> m_woken (shutdown q) = m_woken q @ m_waiting q
   \<and> fst (pop_wakes ts v (shutdown q)) =
       zip ts (map (\<lambda>x. Some (True, x)) (m_queue q)
               @ replicate (length ts - length (m_queue q)) (Some (False, v)))
   \<and> m_waiting (snd (pop_wakes ts v (shutdown q))) = []
   \<and> wait_predicate (shutdown q)
   \<and> pop (shutdown q) v \<noteq> None
   \<and> pops (Suc (length (m_queue q))) (shutdown q) v =
       Some (map (\<lambda>x. (True, x)) (m_queue q) @ [(False, last (v # m_queue q))],
             \<lparr>m_queue = [], m_shutdown = True, m_waiting = [],
              m_woken = m_woken q @ m_waiting q\<rparr>)"
proof -
  have drained: "pops (Suc (length (m_queue (shutdown q)))) (shutdown q) v =
      Some (map (\<lambda>x. (True, x)) (m_queue (shutdown q)) @ [(False, last (v # m_queue (shutdown q)))],
            (shutdown q)\<lparr>m_queue := []\<rparr>)"
    by (rule pops_drain) (rule shutdown_fields)
  have emptied: "(shutdown q)\<lparr>m_queue := []\<rparr> =
      \<lparr>m_queue = [], m_shutdown = True, m_waiting = [], m_woken = m_woken q @ m_waiting q\<rparr>"
    by (simp add: shutdown_def notify_all_def)
  have awake: "wait_predicate (shutdown q)"
    by (simp add: wait_predicate_def shutdown_fields)
  then have no_block: "pop (shutdown q) v \<noteq> None"
    by (auto simp add: pop_def)
  have woken: "fst (pop_wakes ts v (shutdown q)) =
       zip ts (map (\<lambda>x. Some (True, x)) (m_queue q)
               @ replicate (length ts - length (m_queue q)) (Some (False, v)))
     \<and> m_waiting (snd (pop_wakes ts v (shutdown q))) = []"
    using pop_wakes_shut_down [of "shutdown q" ts v] by (simp add: shutdown_fields)
  from drained emptied awake no_block woken shutdown_funpow [of n q] show ?thesis
    by (simp add: shutdown_fields del: pops.simps funpow.simps)
qed

lemma two_waiters_blocked:
  "two_waiters = \<lparr>m_queue = [], m_shutdown = False, m_waiting = [1, 2], m_woken = []\<rparr>"
  by (simp add: two_waiters_def pop_call_def pop_def wait_predicate_def SafeQueue_init_def)

text \<open>Two threads wait, an item is pushed (which releases thread 1), and the queue is
  shut down before any of them has run: both are released, and when thread 2 runs first
  it gets the item and thread 1 gets false.\<close>

theorem shutdown_idempotent_wakes_and_drains_witness:
  "shutdown (push 7 two_waiters) =
     \<lparr>m_queue = [7], m_shutdown = True, m_waiting = [], m_woken = [1, 2]\<rparr>
   \<and> (shutdown ^^ 3) (push 7 two_waiters) = shutdown (push 7 two_waiters)
   \<and> fst (pop_wakes [2, 1] 0 (shutdown (push 7 two_waiters))) =
       [(2, Some (True, 7)), (1, Some (False, 0))]
   \<and> pops 2 (shutdown (push 7 two_waiters)) 0 =
       Some ([(True, 7), (False, 7)],
             \<lparr>m_queue = [], m_shutdown = True, m_waiting = [], m_woken = [1, 2]\<rparr>)"
proof -
  have q: "push 7 two_waiters =
      \<lparr>m_queue = [7], m_shutdown = False, m_waiting = [2], m_woken = [1]\<rparr>"
    by (simp add: two_waiters_blocked push_def notify_one_def)
  have s: "shutdown (push 7 two_waiters) =
      \<lparr>m_queue = [7], m_shutdown = True, m_waiting = [], m_woken = [1, 2]\<rparr>"
    by (simp add: q shutdown_def notify_all_def)
  show ?thesis
    using shutdown_idempotent_wakes_and_drains [of 2 "push 7 two_waiters" "[2, 1]" 0]
    unfolding s
    by (simp add: q numeral_3_eq_3 numeral_2_eq_2 del: pops.simps funpow.simps pop_wakes.simps)
qed

text \<open>
  Claim C10. \<^verbatim>\<open>push\<close> never reads the shutdown flag: on a queue that is already shut
  down it appends the item behind the remaining ones and leaves the flag set. The
  following \<^verbatim>\<open>pop\<close> calls return the remaining items and then the pushed item, each
  with result true, and only then false.
\<close>

theorem push_after_shutdown_is_delivered:
  "m_queue (push x (shutdown q)) = m_queue q @ [x]
   \<and> m_shutdown (push x (shutdown q))
   \<and> push x (shutdown q) = shutdown (push x q)
   \<and> pops (Suc (Suc (length (m_queue q)))) (push x (shutdown q)) v =
       Some (map (\<lambda>y. (True, y)) (m_queue q) @ [(True, x), (False, x)],
             \<lparr>m_queue = [], m_shutdown = True, m_waiting = [],
              m_woken = m_woken q @ m_waiting q\<rparr>)"
proof -
  let ?p = "push x (shutdown q)"
  have items: "m_queue ?p = m_queue q @ [x]" and flag: "m_shutdown ?p"
    by (simp_all add: push_fields shutdown_fields)
  have commute: "?p = shutdown (push x q)"
    by (rule push_shutdown_commute)
  have "pops (Suc (length (m_queue ?p))) ?p v =
      Some (map (\<lambda>y. (True, y)) (m_queue ?p) @ [(False, last (v # m_queue ?p))],
            ?p\<lparr>m_queue := []\<rparr>)"
    using flag by (rule pops_drain)
  moreover have "?p\<lparr>m_queue := []\<rparr> =
      \<lparr>m_queue = [], m_shutdown = True, m_waiting = [], m_woken = m_woken q @ m_waiting q\<rparr>"
    by (simp add: push_def shutdown_def notify_one_def notify_all_def)
  ultimately have "pops (Suc (Suc (length (m_queue q)))) ?p v =
      Some (map (\<lambda>y. (True, y)) (m_queue q) @ [(True, x), (False, x)],
            \<lparr>m_queue = [], m_shutdown = True, m_waiting = [],
             m_woken = m_woken q @ m_waiting q\<rparr>)"
    by (simp add: items del: pops.simps)
  with items flag commute show ?thesis
    by (simp del: pops.simps)
qed

theorem push_after_shutdown_is_delivered_witness:
  "pops 2 (push (5 :: nat) (shutdown SafeQueue_init)) 0 =
     Some ([(True, 5), (False, 5)],
           \<lparr>m_queue = [], m_shutdown = True, m_waiting = [], m_woken = []\<rparr>)"
  using push_after_shutdown_is_delivered [of 5 "SafeQueue_init :: nat SafeQueue" 0]
  by (simp add: SafeQueue_init_def shutdown_def push_def notify_one_def notify_all_def
      numeral_2_eq_2 del: pops.simps)

section \<open>CircularBuffer: the statements of write, read and peek\<close>

text \<open>This section is about \<open>write_rest\<close>, \<open>read_rest\<close> and \<open>peek_rest\<close>, the
  statements that \<^verbatim>\<open>write\<close>, \<^verbatim>\<open>read\<close> and \<^verbatim>\<open>peek\<close> run once they have the
  fill, taken at the fill that \<^verbatim>\<open>available_data_unlocked()\<close> computes.\<close>


lemma cb_inv_init: "0 < c \<Longrightarrow> cb_inv (CircularBuffer_init c)"
  by (simp add: cb_inv_def CircularBuffer_init_def)

text \<open>The fill that the two positions can express is always below the capacity.\<close>

lemma available_data_unlocked_less: "cb_inv cb \<Longrightarrow> available_data_unlocked cb < m_capacity cb"
  by (auto simp add: cb_inv_def available_data_unlocked_def)

lemma length_memcpy_to:
  "off + length src \<le> length dst \<Longrightarrow> length (memcpy_to dst off src) = length dst"
  by (simp add: memcpy_to_def)

lemma write_rest_nothing:
  "min (length src) (m_capacity cb - available_data_unlocked cb) = 0 \<Longrightarrow>
   write_rest (available_data_unlocked cb) src cb = (0, cb)"
  unfolding write_rest_def Let_def by simp

lemma cb_inv_write_rest: 
  assumes "cb_inv cb" shows "cb_inv (snd (write_rest (available_data_unlocked cb) src cb))"
proof -
  define C where "C = m_capacity cb"
  define w where "w = m_write_pos cb"
  define k where "k = min (length src) (C - available_data_unlocked cb)"
  have b: "w < C" "m_read_pos cb < C" "length (m_buffer cb) = C"
    using assms by (simp_all add: cb_inv_def C_def w_def)
  have kC: "k \<le> C" by (simp add: k_def)
  show ?thesis
  proof (cases "k = 0")
    case True
    then have "write_rest (available_data_unlocked cb) src cb = (0, cb)"
      unfolding k_def C_def by (rule write_rest_nothing)
    then show ?thesis using assms by simp
  next
    case False
    then have nz: "length src \<noteq> 0" by (auto simp add: k_def)
    show ?thesis
    proof (cases "w + k \<le> C")
      case True
      have "snd (write_rest (available_data_unlocked cb) src cb) =
              cb\<lparr>m_buffer := memcpy_to (m_buffer cb) w (take k src),
                 m_write_pos := (w + k) mod C\<rparr>"
        using False nz True
        by (simp add: write_rest_def Let_def k_def [symmetric] C_def [symmetric] w_def [symmetric])
      moreover have "length (memcpy_to (m_buffer cb) w (take k src)) = C"
        using True b by (simp add: length_memcpy_to k_def)
      ultimately show ?thesis
        using b by (simp add: cb_inv_def C_def [symmetric])
    next
      case wrap: False
      have "snd (write_rest (available_data_unlocked cb) src cb) =
              cb\<lparr>m_buffer := memcpy_to (memcpy_to (m_buffer cb) w (take (C - w) src)) 0
                                (take (k - (C - w)) (drop (C - w) src)),
                 m_write_pos := k - (C - w)\<rparr>"
        using False nz wrap
        by (simp add: write_rest_def Let_def k_def [symmetric] C_def [symmetric] w_def [symmetric])
      moreover have "length src \<ge> k" by (simp add: k_def)
      then have "length (memcpy_to (m_buffer cb) w (take (C - w) src)) = C"
        using wrap b by (simp add: length_memcpy_to)
      then have "length (memcpy_to (memcpy_to (m_buffer cb) w (take (C - w) src)) 0
                                (take (k - (C - w)) (drop (C - w) src))) = C"
        using kC by (simp add: length_memcpy_to)
      moreover have "k - (C - w) < C" using kC b by arith
      ultimately show ?thesis
        using b by (simp add: cb_inv_def C_def [symmetric])
    qed
  qed
qed

lemma read_rest_nothing:
  "min n (available_data_unlocked cb) = 0 \<Longrightarrow>
   read_rest (available_data_unlocked cb) n cb = ([], cb)"
  unfolding read_rest_def Let_def by simp

lemma read_rest_straight:
  "min n (available_data_unlocked cb) \<noteq> 0 \<Longrightarrow>
   m_read_pos cb + min n (available_data_unlocked cb) \<le> m_capacity cb \<Longrightarrow>
   read_rest (available_data_unlocked cb) n cb =
     (memcpy_from (m_buffer cb) (m_read_pos cb) (min n (available_data_unlocked cb)),
      cb\<lparr>m_read_pos := (m_read_pos cb + min n (available_data_unlocked cb)) mod m_capacity cb\<rparr>)"
  unfolding read_rest_def Let_def by auto

lemma read_rest_wrapped:
  "min n (available_data_unlocked cb) \<noteq> 0 \<Longrightarrow>
   \<not> m_read_pos cb + min n (available_data_unlocked cb) \<le> m_capacity cb \<Longrightarrow>
   read_rest (available_data_unlocked cb) n cb =
     (memcpy_from (m_buffer cb) (m_read_pos cb) (m_capacity cb - m_read_pos cb)
        @ memcpy_from (m_buffer cb) 0
            (min n (available_data_unlocked cb) - (m_capacity cb - m_read_pos cb)),
      cb\<lparr>m_read_pos := min n (available_data_unlocked cb) - (m_capacity cb - m_read_pos cb)\<rparr>)"
  unfolding read_rest_def Let_def by auto

lemma cb_inv_read_rest: 
  assumes "cb_inv cb" shows "cb_inv (snd (read_rest (available_data_unlocked cb) n cb))"
proof -
  define k where "k = min n (available_data_unlocked cb)"
  have a: "k < m_capacity cb"
    using available_data_unlocked_less [OF assms] by (simp add: k_def)
  consider "k = 0" | "k \<noteq> 0" "m_read_pos cb + k \<le> m_capacity cb"
    | "k \<noteq> 0" "\<not> m_read_pos cb + k \<le> m_capacity cb" by blast
  then show ?thesis
  proof cases
    case 1
    then show ?thesis using assms by (simp add: read_rest_nothing k_def)
  next
    case 2
    then show ?thesis using assms a
      by (simp add: read_rest_straight k_def [symmetric] cb_inv_def)
  next
    case 3
    have "k - (m_capacity cb - m_read_pos cb) < m_capacity cb"
      using a by arith
    with 3 show ?thesis using assms
      by (simp add: read_rest_wrapped k_def [symmetric] cb_inv_def)
  qed
qed

lemma length_memcpy_from:
  "off + n \<le> length src \<Longrightarrow> length (memcpy_from src off n) = n"
  by (simp add: memcpy_from_def)

lemma read_rest_count:
  assumes "cb_inv cb"
  shows "length (fst (read_rest (available_data_unlocked cb) n cb))
           = min n (available_data_unlocked cb)"
proof -
  define k where "k = min n (available_data_unlocked cb)"
  have a: "k < m_capacity cb"
    using available_data_unlocked_less [OF assms] by (simp add: k_def)
  have len: "length (m_buffer cb) = m_capacity cb" and r: "m_read_pos cb < m_capacity cb"
    using assms by (simp_all add: cb_inv_def)
  consider "k = 0" | "k \<noteq> 0" "m_read_pos cb + k \<le> m_capacity cb"
    | "k \<noteq> 0" "\<not> m_read_pos cb + k \<le> m_capacity cb" by blast
  then have "length (fst (read_rest (available_data_unlocked cb) n cb)) = k"
  proof cases
    case 1
    then show ?thesis by (simp add: read_rest_nothing k_def)
  next
    case 2
    then show ?thesis using len
      by (simp add: read_rest_straight k_def [symmetric] length_memcpy_from)
  next
    case 3
    then show ?thesis using len r a
      by (simp add: read_rest_wrapped k_def [symmetric] length_memcpy_from)
  qed
  then show ?thesis by (simp add: k_def)
qed

lemma peek_rest_eq_read_rest:
  "peek_rest (available_data_unlocked cb) n cb = fst (read_rest (available_data_unlocked cb) n cb)"
  by (auto simp add: peek_rest_def read_rest_def Let_def)

lemma length_peek_rest:
  "cb_inv cb \<Longrightarrow>
   length (peek_rest (available_data_unlocked cb) n cb) = min n (available_data_unlocked cb)"
  by (simp add: peek_rest_eq_read_rest read_rest_count)

lemma write_rest_count:
  "fst (write_rest (available_data_unlocked cb) src cb) = min (length src) (m_capacity cb - available_data_unlocked cb)"
  by (simp add: write_rest_def Let_def)

lemma write_rest_fills_to_empty:
  assumes inv: "cb_inv cb" and fills: "m_capacity cb - available_data_unlocked cb \<le> length src"
  shows "available_data_unlocked (snd (write_rest (available_data_unlocked cb) src cb)) = 0"
proof -
  define C where "C = m_capacity cb"
  define w where "w = m_write_pos cb"
  define r where "r = m_read_pos cb"
  define k where "k = C - available_data_unlocked cb"
  have bounds: "w < C" "r < C"
    using inv by (simp_all add: cb_inv_def C_def w_def r_def)
  have k: "k = (if r \<le> w then C - (w - r) else r - w)"
    using bounds by (simp add: k_def available_data_unlocked_def C_def w_def r_def)
  have pos: "0 < k"
    using bounds k by (simp split: if_splits)
  have len: "length src \<noteq> 0" and n: "min (length src) k = k"
    using fills pos by (auto simp add: k_def C_def)
  have new_pos: "(if w + k \<le> C then (w + k) mod C else k - (C - w)) = r"
  proof (cases "r \<le> w")
    case True
    then have kk: "k = C - (w - r)" using k by simp
    show ?thesis
    proof (cases "r = 0")
      case True
      then show ?thesis using kk bounds by simp
    next
      case False
      then have "\<not> w + k \<le> C" using kk bounds True by arith
      moreover have "k - (C - w) = r" using kk bounds True by arith
      ultimately show ?thesis by simp
    qed
  next
    case False
    then have kk: "k = r - w" using k by simp
    then have "w + k = r" using False by simp
    then show ?thesis using bounds by simp
  qed
  have "m_write_pos (snd (write_rest (available_data_unlocked cb) src cb)) =
          (if w + k \<le> C then (w + k) mod C else k - (C - w))"
    using len n pos
    by (simp add: write_rest_def Let_def C_def [symmetric] w_def [symmetric] k_def [symmetric])
  then have "m_write_pos (snd (write_rest (available_data_unlocked cb) src cb)) = r"
    using new_pos by simp
  moreover have "m_read_pos (snd (write_rest (available_data_unlocked cb) src cb)) = r"
    by (simp add: write_rest_def Let_def r_def)
  ultimately show ?thesis
    by (simp add: available_data_unlocked_def)
qed

text \<open>A write whose accepted size exactly fills the buffer moves the write position onto
  the read position. The fill that the positions then give is 0 and not the capacity, and
  the statements of \<^verbatim>\<open>read\<close> return no byte: the two positions can express the
  fills from 0 to \<open>C - 1\<close> only (\<open>available_data_unlocked_less\<close>).\<close>

lemma write_rest_filling_the_buffer_loses_its_bytes:
  assumes "cb_inv cb" and "m_capacity cb - available_data_unlocked cb \<le> length src"
  shows "fst (write_rest (available_data_unlocked cb) src cb)
           = m_capacity cb - available_data_unlocked cb
         \<and> available_data_unlocked (snd (write_rest (available_data_unlocked cb) src cb)) = 0
         \<and> fst (read_rest
                  (available_data_unlocked (snd (write_rest (available_data_unlocked cb) src cb)))
                  n (snd (write_rest (available_data_unlocked cb) src cb))) = []"
proof -
  have count: "fst (write_rest (available_data_unlocked cb) src cb)
                 = m_capacity cb - available_data_unlocked cb"
    using assms(2) by (simp add: write_rest_count)
  have fill: "available_data_unlocked (snd (write_rest (available_data_unlocked cb) src cb)) = 0"
    using assms by (rule write_rest_fills_to_empty)
  then have "fst (read_rest
                  (available_data_unlocked (snd (write_rest (available_data_unlocked cb) src cb)))
                  n (snd (write_rest (available_data_unlocked cb) src cb))) = []"
    by (simp add: read_rest_def Let_def)
  with count fill show ?thesis by simp
qed

section \<open>CircularBuffer: the lock\<close>

text \<open>The functions that take the lock once return.\<close>

lemma unlock_lock: "\<not> m_mutex cb \<Longrightarrow> unlock (cb\<lparr>m_mutex := True\<rparr>) = cb"
  by (cases cb) (simp add: unlock_def)

lemma available_data_returns:
  "\<not> m_mutex cb \<Longrightarrow> available_data cb = Returned (available_data_unlocked cb) cb"
  by (simp add: available_data_def lock_guard_def available_data_unlocked_def unlock_lock)

lemma clear_returns:
  "\<not> m_mutex cb \<Longrightarrow> clear cb = Returned () (cb\<lparr>m_read_pos := 0, m_write_pos := 0\<rparr>)"
  by (cases cb) (simp add: clear_def lock_guard_def unlock_def)

lemma available_data_blocks: "m_mutex cb \<Longrightarrow> available_data cb = Blocked cb"
  by (simp add: available_data_def lock_guard_def)

text \<open>
  Claim C5. The claim fails at every write, read or peek of one byte or more, on every
  buffer, in every state: \<^verbatim>\<open>write\<close>, \<^verbatim>\<open>read\<close> and \<^verbatim>\<open>peek\<close> take \<^verbatim>\<open>mutex_\<close> and then
  call \<^verbatim>\<open>available_data()\<close>, which takes \<^verbatim>\<open>mutex_\<close> again. The thread waits for
  the mutex that it holds itself. The call does not return a count, no byte is stored or
  handed out, and the buffer is left as it was, with its mutex locked for good.
\<close>

theorem write_read_and_peek_wait_for_their_own_lock:
  "(src \<noteq> [] \<longrightarrow> cb_write src cb = Blocked (cb\<lparr>m_mutex := True\<rparr>))
   \<and> (0 < n \<longrightarrow> cb_read n cb = Blocked (cb\<lparr>m_mutex := True\<rparr>))
   \<and> (0 < n \<longrightarrow> peek n cb = Blocked (cb\<lparr>m_mutex := True\<rparr>))"
  by (cases cb)
    (simp add: cb_write_def cb_read_def peek_def lock_guard_def available_data_def)

theorem write_read_and_peek_wait_for_their_own_lock_witness:
  "cb_write [1, 2, 3, 4] (CircularBuffer_init 4) =
     Blocked \<lparr>m_capacity = 4, m_buffer = [0, 0, 0, 0], m_write_pos = 0, m_read_pos = 0,
              m_mutex = True\<rparr>
   \<and> cb_read 4 (CircularBuffer_init 4) =
     Blocked \<lparr>m_capacity = 4, m_buffer = [0, 0, 0, 0], m_write_pos = 0, m_read_pos = 0,
              m_mutex = True\<rparr>
   \<and> peek 4 (CircularBuffer_init 4) =
     Blocked \<lparr>m_capacity = 4, m_buffer = [0, 0, 0, 0], m_write_pos = 0, m_read_pos = 0,
              m_mutex = True\<rparr>"
proof -
  have init: "CircularBuffer_init 4 =
      \<lparr>m_capacity = 4, m_buffer = [0, 0, 0, 0], m_write_pos = 0, m_read_pos = 0,
       m_mutex = False\<rparr>"
    by (simp add: CircularBuffer_init_def eval_nat_numeral)
  show ?thesis
    using write_read_and_peek_wait_for_their_own_lock
            [where cb = "CircularBuffer_init 4" and src = "[1, 2, 3, 4]" and n = 4]
    by (simp add: init)
qed

section \<open>MessageHeader: evaluation at concrete objects\<close>

text \<open>Rewrite rules that compute the model on literal bytes. The bit loop is only
  unfolded on a literal register, so that it is never unfolded on a variable.\<close>

lemma upt_2: "[0..<2] = [0, 1]"
  and upt_4: "[0..<4] = [0, 1, 2, 3]"
  and upt_8: "[0..<8] = [0, 1, 2, 3, 4, 5, 6, 7]"
  and upt_18: "[0..<18] = [0, 1, 2, 3, 4, 5, 6, 7, 8, 9, 10, 11, 12, 13, 14, 15, 16, 17]"
  by (simp_all add: upt_rec)

lemma le_bytes_2: "le_bytes 2 w = [ucast w, ucast (drop_bit 8 w)]"
  and le_bytes_4:
    "le_bytes 4 w = [ucast w, ucast (drop_bit 8 w), ucast (drop_bit 16 w), ucast (drop_bit 24 w)]"
  and le_bytes_8:
    "le_bytes 8 w = [ucast w, ucast (drop_bit 8 w), ucast (drop_bit 16 w), ucast (drop_bit 24 w),
       ucast (drop_bit 32 w), ucast (drop_bit 40 w), ucast (drop_bit 48 w), ucast (drop_bit 56 w)]"
  by (simp_all add: le_bytes_def upt_2 upt_4 upt_8)

lemma le_word_Nil: "le_word [] = 0"
  and le_word_Cons: "le_word (b # bs) = ucast b OR push_bit 8 (le_word bs)"
  by (simp_all add: le_word_def)

lemma offsets_lp64:
  "offset_type lp64 = 4" "offset_payload_size lp64 = 8" "offset_timestamp lp64 = 16"
  "offset_header_crc lp64 = 24" "sizeof_MessageHeader lp64 = 32"
  by (simp_all add: offset_type_def offset_payload_size_def offset_timestamp_def
      offset_header_crc_def sizeof_MessageHeader_def offset_magic_def align_up_def lp64_def)

lemma offsets_ilp32:
  "offset_type ilp32 = 4" "offset_payload_size ilp32 = 8" "offset_timestamp ilp32 = 12"
  "offset_header_crc ilp32 = 20" "sizeof_MessageHeader ilp32 = 24"
  by (simp_all add: offset_type_def offset_payload_size_def offset_timestamp_def
      offset_header_crc_def sizeof_MessageHeader_def offset_magic_def align_up_def ilp32_def)

lemma offsets_packed:
  "offset_type packed = 4" "offset_payload_size packed = 6" "offset_timestamp packed = 10"
  "offset_header_crc packed = 18" "sizeof_MessageHeader packed = 20"
  by (simp_all add: offset_type_def offset_payload_size_def offset_timestamp_def
      offset_header_crc_def sizeof_MessageHeader_def offset_magic_def align_up_def packed_def)

lemma zero_storage_20:
  "zero_storage 20 = [0, 0, 0, 0, 0, 0, 0, 0, 0, 0, 0, 0, 0, 0, 0, 0, 0, 0, 0, 0]"
  and zero_storage_32:
  "zero_storage 32 = [0, 0, 0, 0, 0, 0, 0, 0, 0, 0, 0, 0, 0, 0, 0, 0,
                      0, 0, 0, 0, 0, 0, 0, 0, 0, 0, 0, 0, 0, 0, 0, 0]"
  by (simp_all add: zero_storage_def eval_nat_numeral)

lemma crc_shift_literal:
  "crc_shift (Suc n) (numeral k) =
     crc_shift n (if (numeral k :: 16 word) AND 1 \<noteq> 0 then drop_bit 1 (numeral k) XOR 0xA001
                  else drop_bit 1 (numeral k))"
  "crc_shift (Suc n) 0 = crc_shift n 0"
  "crc_shift (Suc n) 1 = crc_shift n 0xA001"
  by simp_all

lemma crc_shift_8:
  "crc_shift 8 c = crc_shift (Suc (Suc (Suc (Suc (Suc (Suc (Suc (Suc 0)))))))) c"
  by (simp add: eval_nat_numeral)

lemmas header_eval =
  MessageHeader_init_def Let_def set_magic_def set_type_field_def set_payload_size_def
  set_timestamp_field_def set_header_crc_def memcpy_to_def memcpy_from_def
  le_bytes_2 le_bytes_4 le_bytes_8 le_word_Nil le_word_Cons offset_magic_def MAGIC_NUMBER_def
  calculate_crc_def upt_18 crc_shift_8 crc_shift_literal HEADER_SIZE_def
  magic_def type_def payload_size_def timestamp_def header_crc_def MAX_PAYLOAD_SIZE_def
  serialize_def deserialize_def zero_storage_20 zero_storage_32

lemmas message_eval =
  Message_init_def set_payload_def to_bytes_def from_bytes_def Message_is_valid_def
  get_type_code_def get_timestamp_def get_payload_size_def is_valid_def

section \<open>MessageHeader: the CRC and the validity check\<close>

lemma crc16_bit_A001:
  "crc16_bit 0xA001 crc = (if crc AND 1 \<noteq> 0 then drop_bit 1 crc XOR 0xA001 else drop_bit 1 crc)"
  by (auto simp add: crc16_bit_def and_one_eq bit_0 even_iff_mod_2_eq_zero)

lemma crc_shift_funpow: "crc_shift n crc = (crc16_bit 0xA001 ^^ n) crc"
proof (induction n arbitrary: crc)
  case 0
  show ?case by simp
next
  case (Suc n)
  have "crc_shift (Suc n) crc = crc_shift n (crc16_bit 0xA001 crc)"
    by (simp add: crc16_bit_A001)
  also have "\<dots> = (crc16_bit 0xA001 ^^ n) (crc16_bit 0xA001 crc)"
    by (rule Suc.IH)
  also have "\<dots> = (crc16_bit 0xA001 ^^ Suc n) crc"
    by (simp add: funpow_swap1)
  finally show ?case .
qed

lemma take_as_map_nth: "n \<le> length xs \<Longrightarrow> map ((!) xs) [0..<n] = take n xs"
  by (rule nth_equalityI) simp_all

lemma calculate_crc_eq_crc16:
  assumes "18 \<le> length h"
  shows "calculate_crc h = crc16_reflected 0xA001 0xFFFF (take 18 h)"
proof -
  have "calculate_crc h =
          fold (\<lambda>b crc. crc_shift 8 (crc XOR ucast b)) (map ((!) h) [0..<18]) 0xFFFF"
    by (simp only: calculate_crc_def fold_map comp_def)
  also have "map ((!) h) [0..<18] = take 18 h"
    using assms by (rule take_as_map_nth)
  finally show ?thesis
    by (simp only: crc16_reflected_def crc_shift_funpow)
qed

text \<open>The reference algorithm is the CRC-16 known as CRC-16/MODBUS; its published check
  value for the ASCII digits 1 to 9 is \<open>0x4B37\<close>.\<close>

lemma crc16_reflected_check_value:
  "crc16_reflected 0xA001 0xFFFF [0x31, 0x32, 0x33, 0x34, 0x35, 0x36, 0x37, 0x38, 0x39] = 0x4B37"
proof -
  have "crc16_reflected 0xA001 0xFFFF bs = fold (\<lambda>b crc. crc_shift 8 (crc XOR ucast b)) bs 0xFFFF"
    for bs
    by (simp only: crc16_reflected_def crc_shift_funpow)
  then show ?thesis
    by (simp add: crc_shift_8 crc_shift_literal del: crc_shift.simps(2))
qed

text \<open>\<^verbatim>\<open>is_valid()\<close> is three checks: the magic, the payload size, and the stored CRC
  against the reflected CRC-16 (polynomial \<open>0xA001\<close>, initial value \<open>0xFFFF\<close>) of
  bytes 0 to 17 of the object, whatever the layout puts there. The checks are free of
  side effects, so their order cannot be observed.\<close>

lemma is_valid_over_the_object_bytes:
  assumes "18 \<le> length h"
  shows "is_valid a h \<longleftrightarrow>
           magic h = 0xABCD1234
           \<and> unat (payload_size a h) \<le> 100 * 1024 * 1024
           \<and> header_crc a h = crc16_reflected 0xA001 0xFFFF (take 18 h)"
proof -
  have "payload_size a h > MAX_PAYLOAD_SIZE \<longleftrightarrow> \<not> unat (payload_size a h) \<le> 100 * 1024 * 1024"
    by (simp add: MAX_PAYLOAD_SIZE_def word_less_nat_alt not_le)
  then show ?thesis
    by (auto simp add: is_valid_def MAGIC_NUMBER_def calculate_crc_eq_crc16 [OF assms])
qed

text \<open>Little-endian bytes read as a word and written back are the same bytes.\<close>

lemma bit_le_word:
  "bit (le_word bs :: 'a::len word) k \<longleftrightarrow>
     k < LENGTH('a) \<and> k div 8 < length bs \<and> bit (bs ! (k div 8)) (k mod 8)"
proof (induction bs arbitrary: k)
  case Nil
  then show ?case by (simp add: le_word_def)
next
  case (Cons b bs)
  have unfold: "le_word (b # bs) = (ucast b OR push_bit 8 (le_word bs) :: 'a word)"
    by (simp add: le_word_def)
  show ?case
  proof (cases "k < 8")
    case True
    then have "k div 8 = 0" "k mod 8 = k" by simp_all
    then show ?thesis
      using True by (auto simp add: unfold bit_simps)
  next
    case False
    then have k: "k div 8 = Suc ((k - 8) div 8)" "k mod 8 = (k - 8) mod 8"
      by (simp_all add: le_div_geq le_mod_geq)
    have small: "\<not> bit b k"
      using False bit_imp_le_length [of b k] by auto
    show ?thesis
      using False small by (auto simp add: unfold bit_simps Cons.IH k)
  qed
qed

lemma nth_le_bytes: "i < n \<Longrightarrow> le_bytes n w ! i = ucast (drop_bit (8 * i) w)"
  by (simp add: le_bytes_def)

lemma length_le_bytes: "length (le_bytes n w) = n"
  by (simp add: le_bytes_def)

lemma le_bytes_le_word:
  assumes "8 * length bs \<le> LENGTH('a::len)"
  shows "le_bytes (length bs) (le_word bs :: 'a word) = bs"
proof (rule nth_equalityI)
  show "length (le_bytes (length bs) (le_word bs :: 'a word)) = length bs"
    by (simp add: length_le_bytes)
next
  fix i
  assume "i < length (le_bytes (length bs) (le_word bs :: 'a word))"
  then have i: "i < length bs"
    by (simp add: length_le_bytes)
  show "le_bytes (length bs) (le_word bs :: 'a word) ! i = bs ! i"
  proof (rule bit_eqI)
    fix j
    assume "possible_bit TYPE(8 word) j"
    then have j: "j < 8" by simp
    then have dm: "(8 * i + j) div 8 = i" "(8 * i + j) mod 8 = j"
      by simp_all
    have "8 * i + j < 8 * length bs"
      using i j by simp
    then have "8 * i + j < LENGTH('a)"
      using assms by simp
    then show "bit (le_bytes (length bs) (le_word bs :: 'a word) ! i) j = bit (bs ! i) j"
      using i j by (simp add: nth_le_bytes bit_simps bit_le_word dm)
  qed
qed

text \<open>With the layout without padding, bytes 0 to 17 of the object are the header bytes
  of the specification, and \<^verbatim>\<open>is_valid()\<close> is the validity check of the
  specification, for every header object.\<close>

lemma spec_header_bytes_packed:
  assumes "18 \<le> length h"
  shows "spec_header_bytes_0_17 packed h = take 18 h"
proof -
  have m: "le_bytes 4 (magic h) = take 4 h"
    using assms le_bytes_le_word [of "take 4 h", where ?'a = 32]
    by (simp add: magic_def memcpy_from_def offset_magic_def)
  have t: "le_bytes 2 (type packed h) = take 2 (drop 4 h)"
    using assms le_bytes_le_word [of "take 2 (drop 4 h)", where ?'a = 16]
    by (simp add: type_def memcpy_from_def offsets_packed)
  have p: "le_bytes 4 (payload_size packed h) = take 4 (drop 6 h)"
    using assms le_bytes_le_word [of "take 4 (drop 6 h)", where ?'a = 32]
    by (simp add: payload_size_def memcpy_from_def offsets_packed)
  have s: "le_bytes 8 (timestamp packed h) = take 8 (drop 10 h)"
    using assms le_bytes_le_word [of "take 8 (drop 10 h)", where ?'a = 64]
    by (simp add: timestamp_def memcpy_from_def offsets_packed)
  have "take 18 h = take 4 h @ take 2 (drop 4 h) @ take 4 (drop 6 h) @ take 8 (drop 10 h)"
    by (simp add: take_add [symmetric] take_drop [symmetric] flip: append_assoc)
  then show ?thesis
    by (simp add: spec_header_bytes_0_17_def m t p s)
qed

lemma is_valid_packed:
  assumes "18 \<le> length h"
  shows "is_valid packed h \<longleftrightarrow> spec_is_valid packed h"
  using is_valid_over_the_object_bytes [OF assms, of packed]
  by (simp add: spec_is_valid_def spec_header_bytes_packed [OF assms])

lemma crc16_reflected_as_loop:
  "crc16_reflected 0xA001 0xFFFF bs = fold (\<lambda>b crc. crc_shift 8 (crc XOR ucast b)) bs 0xFFFF"
  by (simp only: crc16_reflected_def crc_shift_funpow)

section \<open>MessageHeader: the validity check on the compiled layout\<close>

text \<open>The header of a heartbeat on x86-64 and AArch64, where the struct has 32 bytes:
  bytes 0 to 17 of the object are the magic, the type, two padding bytes, the payload
  size, four padding bytes and the low two bytes of the timestamp.\<close>

lemma heartbeat_header_42_lp64:
  "heartbeat_header lp64 42 =
     [52, 18, 205, 171, 200, 0, 0, 0, 0, 0, 0, 0, 0, 0, 0, 0,
      42, 0, 0, 0, 0, 0, 0, 0, 58, 173, 0, 0, 0, 0, 0, 0]"
  by (simp add: heartbeat_header_def header_eval offsets_lp64 del: crc_shift.simps(2))

lemma heartbeat_header_0_lp64:
  "heartbeat_header lp64 0 =
     [52, 18, 205, 171, 200, 0, 0, 0, 0, 0, 0, 0, 0, 0, 0, 0,
      0, 0, 0, 0, 0, 0, 0, 0, 37, 205, 0, 0, 0, 0, 0, 0]"
  by (simp add: heartbeat_header_def header_eval offsets_lp64 del: crc_shift.simps(2))

lemma heartbeat_header_42_packed:
  "heartbeat_header packed 42 =
     [52, 18, 205, 171, 200, 0, 0, 0, 0, 0, 42, 0, 0, 0, 0, 0, 0, 0, 167, 170]"
  by (simp add: heartbeat_header_def header_eval offsets_packed del: crc_shift.simps(2))

lemmas spec_eval =
  spec_is_valid_def spec_header_bytes_0_17_def crc16_reflected_as_loop

lemma heartbeat_lp64_is_valid:
  "is_valid lp64 (heartbeat_header lp64 42)"
  unfolding heartbeat_header_42_lp64
  by (simp add: is_valid_def header_eval offsets_lp64 del: crc_shift.simps(2))

lemma heartbeat_lp64_fields:
  "header_crc lp64 (heartbeat_header lp64 42) = 0xAD3A"
  "spec_header_bytes_0_17 lp64 (heartbeat_header lp64 42) =
     [0x34, 0x12, 0xCD, 0xAB, 0xC8, 0, 0, 0, 0, 0, 42, 0, 0, 0, 0, 0, 0, 0]"
  unfolding heartbeat_header_42_lp64
  by (simp_all add: spec_header_bytes_0_17_def header_eval offsets_lp64 del: crc_shift.simps(2))

lemma heartbeat_spec_crc:
  "crc16_reflected 0xA001 0xFFFF
     [0x34, 0x12, 0xCD, 0xAB, 0xC8, 0, 0, 0, 0, 0, 42, 0, 0, 0, 0, 0, 0, 0] = 0xAAA7"
  by (simp add: crc16_reflected_as_loop crc_shift_8 crc_shift_literal del: crc_shift.simps(2))

lemma heartbeat_lp64_not_spec_valid:
  "\<not> spec_is_valid lp64 (heartbeat_header lp64 42)"
  by (simp add: spec_is_valid_def heartbeat_lp64_fields heartbeat_spec_crc)

lemma heartbeat_lp64_with_spec_crc:
  "set_header_crc lp64 0xAAA7 (heartbeat_header lp64 42) =
     [52, 18, 205, 171, 200, 0, 0, 0, 0, 0, 0, 0, 0, 0, 0, 0,
      42, 0, 0, 0, 0, 0, 0, 0, 167, 170, 0, 0, 0, 0, 0, 0]"
  unfolding heartbeat_header_42_lp64
  by (simp add: header_eval offsets_lp64 del: crc_shift.simps(2))

lemma heartbeat_lp64_with_spec_crc_valid:
  "spec_is_valid lp64 (set_header_crc lp64 0xAAA7 (heartbeat_header lp64 42))"
  "\<not> is_valid lp64 (set_header_crc lp64 0xAAA7 (heartbeat_header lp64 42))"
  unfolding heartbeat_lp64_with_spec_crc
  by (simp_all add: spec_eval is_valid_def header_eval offsets_lp64 del: crc_shift.simps(2))

lemma heartbeat_lp64_other_timestamp:
  "set_timestamp_field lp64 0x0000000500010000 (heartbeat_header lp64 0) =
     [52, 18, 205, 171, 200, 0, 0, 0, 0, 0, 0, 0, 0, 0, 0, 0,
      0, 0, 1, 0, 5, 0, 0, 0, 37, 205, 0, 0, 0, 0, 0, 0]"
  unfolding heartbeat_header_0_lp64
  by (simp add: header_eval offsets_lp64 del: crc_shift.simps(2))

lemma heartbeat_lp64_other_timestamp_valid:
  "is_valid lp64 (set_timestamp_field lp64 0x0000000500010000 (heartbeat_header lp64 0))"
  "timestamp lp64 (set_timestamp_field lp64 0x0000000500010000 (heartbeat_header lp64 0))
     = 0x0000000500010000"
  "header_crc lp64 (set_timestamp_field lp64 0x0000000500010000 (heartbeat_header lp64 0))
     = 0xCD25"
  unfolding heartbeat_lp64_other_timestamp
  by (simp_all add: is_valid_def header_eval offsets_lp64 del: crc_shift.simps(2))

lemma heartbeat_lp64_timestamp_0:
  "is_valid lp64 (heartbeat_header lp64 0)"
  "header_crc lp64 (heartbeat_header lp64 0) = 0xCD25"
  "spec_is_valid lp64 (heartbeat_header lp64 0)"
  unfolding heartbeat_header_0_lp64
  by (simp_all add: spec_eval is_valid_def header_eval offsets_lp64 del: crc_shift.simps(2))

lemma heartbeat_lp64_other_timestamp_not_spec_valid:
  "\<not> spec_is_valid lp64 (set_timestamp_field lp64 0x0000000500010000 (heartbeat_header lp64 0))"
  unfolding heartbeat_lp64_other_timestamp
  by (simp add: spec_eval header_eval offsets_lp64 del: crc_shift.simps(2))

lemma heartbeat_packed_valid:
  "is_valid packed (heartbeat_header packed 42)"
  "spec_is_valid packed (heartbeat_header packed 42)"
  unfolding heartbeat_header_42_packed
  by (simp_all add: spec_eval is_valid_def header_eval offsets_packed del: crc_shift.simps(2))

text \<open>
  Claim C3. On the layout that the compilers give the struct, \<^verbatim>\<open>is_valid()\<close> is not
  the check of the claim, in either direction. The header that the constructor makes for
  a heartbeat with timestamp 42 is valid for the code although its stored CRC,
  \<open>0xAD3A\<close>, is not the CRC-16 of its header bytes 0 to 17, \<open>0xAAA7\<close>. The same
  header with the CRC of its header bytes stored passes the three checks of the claim and
  is invalid for the code. And a header whose timestamp is changed from 0 to
  \<open>0x0000000500010000\<close> while its CRC stays is still valid for the code: of the
  timestamp the code's CRC covers the two low bytes only.
\<close>

theorem is_valid_checks_the_object_not_the_header_bytes:
  "is_valid lp64 (heartbeat_header lp64 42)
   \<and> \<not> spec_is_valid lp64 (heartbeat_header lp64 42)
   \<and> spec_is_valid lp64 (set_header_crc lp64 0xAAA7 (heartbeat_header lp64 42))
   \<and> \<not> is_valid lp64 (set_header_crc lp64 0xAAA7 (heartbeat_header lp64 42))
   \<and> is_valid lp64 (set_timestamp_field lp64 0x0000000500010000 (heartbeat_header lp64 0))
   \<and> \<not> spec_is_valid lp64
         (set_timestamp_field lp64 0x0000000500010000 (heartbeat_header lp64 0))"
  by (simp add: heartbeat_lp64_is_valid heartbeat_lp64_not_spec_valid
      heartbeat_lp64_with_spec_crc_valid heartbeat_lp64_other_timestamp_valid
      heartbeat_lp64_other_timestamp_not_spec_valid)

section \<open>Message: serialisation and the round trip\<close>

lemma fresh_message_packed:
  "fresh_message packed =
     \<lparr>m_header = [52, 18, 205, 171, 0, 0, 0, 0, 0, 0, 0, 0, 0, 0, 0, 0, 0, 0, 236, 197],
      m_payload = [], m_valid = True\<rparr>"
  by (simp add: fresh_message_def message_eval header_eval offsets_packed del: crc_shift.simps(2))

lemma fresh_message_lp64:
  "fresh_message lp64 =
     \<lparr>m_header = [52, 18, 205, 171, 0, 0, 0, 0, 0, 0, 0, 0, 0, 0, 0, 0,
                  0, 0, 0, 0, 0, 0, 0, 0, 236, 197, 0, 0, 0, 0, 0, 0],
      m_payload = [], m_valid = True\<rparr>"
  by (simp add: fresh_message_def message_eval header_eval offsets_lp64 del: crc_shift.simps(2))

lemma one_byte_message_packed:
  "one_byte_message packed =
     \<lparr>m_header = [52, 18, 205, 171, 0, 0, 1, 0, 0, 0, 0, 0, 0, 0, 0, 0, 0, 0, 236, 197],
      m_payload = [65], m_valid = True\<rparr>"
  by (simp add: one_byte_message_def fresh_message_packed alloc_succeeds_def set_payload_def
      set_payload_size_def memcpy_to_def le_bytes_4 offsets_packed)

lemma one_byte_round_trip_packed:
  "from_bytes alloc_succeeds packed (to_bytes (one_byte_message packed)) (fresh_message packed) =
     (False, \<lparr>m_header = [52, 18, 205, 171, 0, 0, 1, 0, 0, 0, 0, 0, 0, 0, 0, 0, 0, 0, 236, 197],
              m_payload = [], m_valid = False\<rparr>)"
  by (simp add: one_byte_message_packed fresh_message_packed message_eval header_eval
      offsets_packed del: crc_shift.simps(2))

lemma heartbeat_message_lp64:
  "heartbeat_message lp64 =
     \<lparr>m_header = [52, 18, 205, 171, 200, 0, 0, 0, 0, 0, 0, 0, 0, 0, 0, 0,
                  42, 0, 0, 0, 0, 0, 0, 0, 58, 173, 0, 0, 0, 0, 0, 0],
      m_payload = [], m_valid = True\<rparr>"
  by (simp add: heartbeat_message_def message_eval header_eval offsets_lp64 del: crc_shift.simps(2))

lemma heartbeat_round_trip_lp64:
  "from_bytes alloc_succeeds lp64 (to_bytes (heartbeat_message lp64)) (fresh_message lp64) =
     (False, \<lparr>m_header = [52, 18, 205, 171, 200, 0, 0, 0, 0, 0, 0, 0, 0, 0, 0, 0,
                  42, 0, 0, 0, 0, 0, 0, 0, 236, 197, 0, 0, 0, 0, 0, 0],
              m_payload = [], m_valid = False\<rparr>)"
  by (simp add: heartbeat_message_lp64 fresh_message_lp64 message_eval header_eval
      offsets_lp64 del: crc_shift.simps(2))

lemma video_message_lp64:
  "video_message lp64 =
     \<lparr>m_header = [52, 18, 205, 171, 1, 0, 0, 0, 3, 0, 0, 0, 0, 0, 0, 0,
                  8, 7, 6, 5, 4, 3, 2, 1, 90, 9, 0, 0, 0, 0, 0, 0],
      m_payload = [170, 187, 204], m_valid = True\<rparr>"
  by (simp add: video_message_def alloc_succeeds_def message_eval header_eval offsets_lp64
      del: crc_shift.simps(2))

lemma video_message_packed:
  "video_message packed =
     \<lparr>m_header = [52, 18, 205, 171, 1, 0, 3, 0, 0, 0, 8, 7, 6, 5, 4, 3, 2, 1, 98, 144],
      m_payload = [170, 187, 204], m_valid = True\<rparr>"
  by (simp add: video_message_def alloc_succeeds_def message_eval header_eval offsets_packed
      del: crc_shift.simps(2))

lemma announced_message_packed:
  "announced_message packed =
     \<lparr>m_header = [52, 18, 205, 171, 1, 0, 0, 4, 0, 0, 0, 0, 0, 0, 0, 0, 0, 0, 249, 52],
      m_payload = [], m_valid = True\<rparr>"
  by (simp add: announced_message_def message_eval header_eval offsets_packed
      del: crc_shift.simps(2))

text \<open>With the layout the source's comment describes, a header made by the constructor is
  the five fields one after the other, and a message built the way the pipeline builds
  it survives the round trip.\<close>

lemma MessageHeader_init_packed:
  assumes "length storage = 20"
  shows "MessageHeader_init packed storage t s ts =
           le_bytes 4 MAGIC_NUMBER @ le_bytes 2 t @ le_bytes 4 s @ le_bytes 8 ts
           @ le_bytes 2 (calculate_crc (le_bytes 4 MAGIC_NUMBER @ le_bytes 2 t @ le_bytes 4 s
                                         @ le_bytes 8 ts @ le_bytes 2 0))"
  using assms
  by (simp add: MessageHeader_init_def Let_def set_magic_def set_type_field_def
      set_payload_size_def set_timestamp_field_def set_header_crc_def memcpy_to_def
      le_bytes_2 le_bytes_4 le_bytes_8 offset_magic_def offsets_packed)

lemma video_round_trip_packed:
  "from_bytes alloc_succeeds packed (to_bytes (video_message packed)) (fresh_message packed) =
     (True, video_message packed)"
  by (simp add: video_message_packed fresh_message_packed alloc_succeeds_def message_eval
      header_eval offsets_packed del: crc_shift.simps(2))

text \<open>
  Claim C2, at a message of the pipeline on x86-64 or AArch64. The struct has padding
  after \<open>type\<close> and after \<open>payload_size\<close>, and \<^verbatim>\<open>serialize\<close> copies the first 20 of
  its 32 bytes. The stream is 20 bytes followed by the payload, but the 20 bytes are:
  magic (0..3), type (4..5), two padding bytes, the payload size at offset 8, four
  padding bytes, and the low four bytes of the timestamp at offset 16. Read at the
  offsets of the claim, bytes 6..9 give 196608 for a payload size of 3, bytes 10..17 do
  not give the timestamp, and bytes 18..19 are timestamp bytes, not the CRC (which is
  not sent at all). Independently of the layout, the stream's length is 20 plus the
  length of the payload vector, which is 0 for a message constructed with an announced
  size of 1024 and no payload.
\<close>

theorem to_bytes_is_not_the_documented_layout:
  "to_bytes (video_message lp64) =
     [0x34, 0x12, 0xCD, 0xAB, 1, 0, 0, 0, 3, 0, 0, 0, 0, 0, 0, 0, 8, 7, 6, 5, 0xAA, 0xBB, 0xCC]
   \<and> get_payload_size lp64 (video_message lp64) = 3
   \<and> (le_word (memcpy_from (to_bytes (video_message lp64)) 6 4) :: 32 word) = 196608
   \<and> get_timestamp lp64 (video_message lp64) = 0x0102030405060708
   \<and> (le_word (memcpy_from (to_bytes (video_message lp64)) 10 8) :: 64 word) = 0x0708000000000000
   \<and> header_crc lp64 (m_header (video_message lp64)) = 0x095A
   \<and> (le_word (memcpy_from (to_bytes (video_message lp64)) 18 2) :: 16 word) = 0x0506
   \<and> get_payload_size packed (announced_message packed) = 1024
   \<and> length (to_bytes (announced_message packed)) = 20"
  by (simp add: video_message_lp64 announced_message_packed to_bytes_def serialize_def
      HEADER_SIZE_def memcpy_from_def get_payload_size_def get_timestamp_def payload_size_def
      timestamp_def header_crc_def offsets_lp64 offsets_packed le_word_Nil le_word_Cons)

text \<open>
  Claim C1, at two messages within the size limit. (1) With the documented layout:
  \<^verbatim>\<open>set_payload\<close> stores the new payload size in the header and leaves the header CRC
  as it was (\<^verbatim>\<open>set_type\<close> and \<^verbatim>\<open>set_timestamp\<close> recompute it), so a message that got
  its payload from \<^verbatim>\<open>set_payload\<close> alone serialises with a stale CRC and
  \<^verbatim>\<open>from_bytes\<close> rejects it. (2) With the layout of x86-64 and AArch64 the CRC field
  lies outside the 20 bytes copied, so the receiver checks the sender's bytes against
  its own old CRC: the heartbeat of the specification's scenario 2 is rejected.
\<close>

theorem round_trip_fails:
  "get_payload_size packed (one_byte_message packed) = 1
   \<and> m_payload (one_byte_message packed) = [0x41]
   \<and> \<not> fst (from_bytes alloc_succeeds packed (to_bytes (one_byte_message packed))
               (fresh_message packed))
   \<and> \<not> Message_is_valid packed
          (snd (from_bytes alloc_succeeds packed (to_bytes (one_byte_message packed))
                  (fresh_message packed)))
   \<and> \<not> fst (from_bytes alloc_succeeds lp64 (to_bytes (heartbeat_message lp64))
               (fresh_message lp64))
   \<and> \<not> Message_is_valid lp64
          (snd (from_bytes alloc_succeeds lp64 (to_bytes (heartbeat_message lp64))
                  (fresh_message lp64)))"
proof -
  have built: "get_payload_size packed (one_byte_message packed) = 1
               \<and> m_payload (one_byte_message packed) = [0x41]"
    by (simp add: one_byte_message_packed get_payload_size_def payload_size_def memcpy_from_def
        offsets_packed le_word_Nil le_word_Cons)
  show ?thesis
    unfolding one_byte_round_trip_packed heartbeat_round_trip_lp64
    using built by (simp add: Message_is_valid_def)
qed

section \<open>Connection: the receive engine and the lock of the ring buffer\<close>

text \<open>With fewer than 20 bytes in the ring buffer \<^verbatim>\<open>try_extract_message\<close> returns
  false and leaves everything as it is.\<close>

lemma try_extract_message_awaits_header:
  assumes "\<not> m_mutex (m_recv_buffer c)"
    and "available_data_unlocked (m_recv_buffer c) < HEADER_SIZE"
  shows "try_extract_message can_allocate a storage message c = Returned (Normal False, message) c"
  using assms by (simp add: try_extract_message_def available_data_returns)

text \<open>Whatever the connection and its ring buffer are, \<^verbatim>\<open>try_extract_message\<close>
  never returns true, and when it returns it has changed nothing: no message is ever
  extracted, the ring buffer is never cleared and no error is ever logged.\<close>

lemma try_extract_message_never_extracts:
  assumes "try_extract_message can_allocate a storage message c = Returned (r, m) c'"
  shows "r \<noteq> Normal True \<and> m = message \<and> c' = c"
proof (cases "m_mutex (m_recv_buffer c)")
  case True
  then show ?thesis
    using assms by (simp add: try_extract_message_def available_data_blocks)
next
  case False
  have "0 < HEADER_SIZE"
    by (simp add: HEADER_SIZE_def)
  then have "peek HEADER_SIZE (m_recv_buffer c) = Blocked ((m_recv_buffer c)\<lparr>m_mutex := True\<rparr>)"
    using False by (simp add: peek_def lock_guard_def available_data_blocks)
  then show ?thesis
    using assms False
    by (auto simp add: try_extract_message_def available_data_returns split: if_splits)
qed

lemma connection_holding_garbage_fill:
  "\<not> m_mutex (m_recv_buffer connection_holding_garbage)"
  "available_data_unlocked (m_recv_buffer connection_holding_garbage) = 20"
  "cerr connection_holding_garbage = []"
  by (simp_all add: connection_holding_garbage_def new_connection_def stream_garbage_def
      write_rest_def CircularBuffer_init_def available_data_unlocked_def Let_def)

text \<open>
  Claim C4. The receive engine does not get as far as the policy of the claim. When
  \<^verbatim>\<open>::recv\<close> has delivered bytes, \<^verbatim>\<open>receive_message\<close> hands them to
  \<^verbatim>\<open>recv_buffer_.write\<close>, which waits for its own lock: the call does not
  return, on the first bytes that a connection receives, whatever they are. And on a
  connection whose ring buffer holds 20 bytes or more, \<^verbatim>\<open>try_extract_message\<close> does
  not return from \<^verbatim>\<open>recv_buffer_.peek\<close>, for the same reason. In both cases the
  connection is left as it was but for the locked mutex: no header is validated, the ring
  buffer is not cleared, no error is logged, and the thread of the connection does not
  continue.
\<close>

theorem receive_engine_waits_for_the_lock_of_its_ring_buffer:
  "(m_connected c \<and> chunk \<noteq> [] \<longrightarrow>
      receive_message can_allocate a storage chunk message c =
        Blocked (c\<lparr>m_recv_buffer := (m_recv_buffer c)\<lparr>m_mutex := True\<rparr>\<rparr>))
   \<and> (HEADER_SIZE \<le> available_data_unlocked (m_recv_buffer c) \<and> can_allocate HEADER_SIZE \<longrightarrow>
      try_extract_message can_allocate a storage message c =
        Blocked (c\<lparr>m_recv_buffer := (m_recv_buffer c)\<lparr>m_mutex := True\<rparr>\<rparr>))"
proof (intro conjI impI)
  assume "m_connected c \<and> chunk \<noteq> []"
  then show "receive_message can_allocate a storage chunk message c =
      Blocked (c\<lparr>m_recv_buffer := (m_recv_buffer c)\<lparr>m_mutex := True\<rparr>\<rparr>)"
    by (cases "m_recv_buffer c")
      (simp add: receive_message_def cb_write_def lock_guard_def available_data_def)
next
  assume fill: "HEADER_SIZE \<le> available_data_unlocked (m_recv_buffer c) \<and> can_allocate HEADER_SIZE"
  have size: "0 < HEADER_SIZE"
    by (simp add: HEADER_SIZE_def)
  show "try_extract_message can_allocate a storage message c =
      Blocked (c\<lparr>m_recv_buffer := (m_recv_buffer c)\<lparr>m_mutex := True\<rparr>\<rparr>)"
  proof (cases "m_mutex (m_recv_buffer c)")
    case True
    then have "(m_recv_buffer c)\<lparr>m_mutex := True\<rparr> = m_recv_buffer c"
      by (cases "m_recv_buffer c") simp
    then show ?thesis
      using True by (simp add: try_extract_message_def available_data_blocks)
  next
    case False
    then show ?thesis
      using fill size
      by (simp add: try_extract_message_def available_data_returns peek_def lock_guard_def
          available_data_blocks)
  qed
qed

text \<open>A new connection receives twenty bytes that are no header; and the connection that
  holds them is asked for a message.\<close>

theorem receive_engine_waits_for_the_lock_of_its_ring_buffer_witness:
  "receive_message alloc_succeeds packed (zero_storage 20) stream_garbage
       (fresh_message packed) new_connection =
     Blocked \<lparr>m_connected = True,
              m_recv_buffer = (CircularBuffer_init 32)\<lparr>m_mutex := True\<rparr>,
              cerr = []\<rparr>
   \<and> try_extract_message alloc_succeeds packed (zero_storage 20)
       (fresh_message packed) connection_holding_garbage =
     Blocked (connection_holding_garbage
                \<lparr>m_recv_buffer := (m_recv_buffer connection_holding_garbage)\<lparr>m_mutex := True\<rparr>\<rparr>)
   \<and> available_data_unlocked (m_recv_buffer connection_holding_garbage) = 20
   \<and> cerr connection_holding_garbage = []"
proof -
  have new: "\<not> m_mutex (m_recv_buffer new_connection)" "m_connected new_connection"
    by (simp_all add: new_connection_def CircularBuffer_init_def)
  have chunk: "stream_garbage \<noteq> []"
    by (simp add: stream_garbage_def)
  have held: "HEADER_SIZE \<le> available_data_unlocked (m_recv_buffer connection_holding_garbage)"
    by (simp add: connection_holding_garbage_fill HEADER_SIZE_def)
  have "receive_message alloc_succeeds packed (zero_storage 20) stream_garbage
       (fresh_message packed) new_connection =
     Blocked (new_connection\<lparr>m_recv_buffer := (m_recv_buffer new_connection)\<lparr>m_mutex := True\<rparr>\<rparr>)"
    using receive_engine_waits_for_the_lock_of_its_ring_buffer
            [of new_connection stream_garbage alloc_succeeds packed "zero_storage 20"
               "fresh_message packed"] new(2) chunk
    by blast
  moreover have "try_extract_message alloc_succeeds packed (zero_storage 20)
       (fresh_message packed) connection_holding_garbage =
     Blocked (connection_holding_garbage
                \<lparr>m_recv_buffer := (m_recv_buffer connection_holding_garbage)\<lparr>m_mutex := True\<rparr>\<rparr>)"
    using receive_engine_waits_for_the_lock_of_its_ring_buffer
            [of connection_holding_garbage stream_garbage alloc_succeeds packed
               "zero_storage 20" "fresh_message packed"] held
    by (simp add: alloc_succeeds_def)
  ultimately show ?thesis
    by (simp add: new_connection_def connection_holding_garbage_fill)
qed

section \<open>CompressionEngine: the timestamp and the size of an encoded frame\<close>

subsection \<open>The product of a size and a ratio in double precision\<close>

lemma round_brackets:
  "p div 2 ^ round_exponent p * 2 ^ round_exponent p \<le> round_to_53_bits p"
  "round_to_53_bits p \<le> (p div 2 ^ round_exponent p + 1) * 2 ^ round_exponent p"
  by (simp_all add: round_to_53_bits_def Let_def)

lemma round_exponent_le:
  assumes "p < 2 ^ (53 + k)"
  shows "round_exponent p \<le> k"
proof -
  have "floorlog 2 p \<le> 53 + k"
    using assms by (intro floorlog_leI) simp_all
  then show ?thesis by (simp add: round_exponent_def)
qed

lemma less_two_power_round_exponent: "p < 2 ^ (53 + round_exponent p)"
proof (cases "p = 0")
  case True
  then show ?thesis by simp
next
  case False
  then have "p < 2 ^ floorlog 2 p"
    using floorlog_bounds [of p 2] by simp
  also have "(2::nat) ^ floorlog 2 p \<le> 2 ^ (53 + round_exponent p)"
    by (rule power_increasing) (simp_all add: round_exponent_def)
  finally show ?thesis .
qed

lemma multiple_below:
  fixes t :: nat
  assumes "t * d \<le> p" and "0 < d"
  shows "t * d \<le> p div d * d"
proof -
  have "t \<le> p div d"
    using assms by (simp add: less_eq_div_iff_mult_less_eq)
  then show ?thesis by simp
qed

lemma multiple_above:
  fixes t :: nat
  assumes "p < t * d" and "0 < d"
  shows "(p div d + 1) * d \<le> t * d"
proof -
  have "p div d < t"
    using assms by (simp add: div_less_iff_less_mult)
  then have "p div d + 1 \<le> t" by simp
  then show ?thesis by (rule mult_le_mono1)
qed

text \<open>The truncated rounded product, when the exact product is clear of the next integer.\<close>

lemma truncated_rounding:
  assumes low: "k * 2 ^ 53 \<le> p" and high: "p + 2 ^ 32 < (k + 1) * 2 ^ 53" and p: "p < 2 ^ 85"
  shows "round_to_53_bits p div 2 ^ 53 = k"
proof -
  define e where "e = round_exponent p"
  have e32: "e \<le> 32"
    unfolding e_def using p by (intro round_exponent_le) simp
  have split: "(2::nat) ^ 53 = 2 ^ (53 - e) * 2 ^ e"
    using e32 by (simp add: power_add [symmetric])
  have "k * 2 ^ (53 - e) * 2 ^ e \<le> p"
    using low split by (simp add: mult.assoc)
  then have "k * 2 ^ (53 - e) * 2 ^ e \<le> p div 2 ^ e * 2 ^ e"
    by (rule multiple_below) simp
  also have "\<dots> \<le> round_to_53_bits p"
    unfolding e_def by (rule round_brackets)
  finally have lower: "k * 2 ^ 53 \<le> round_to_53_bits p"
    using split by (simp add: mult.assoc)
  have "round_to_53_bits p \<le> (p div 2 ^ e + 1) * 2 ^ e"
    unfolding e_def by (rule round_brackets)
  also have "\<dots> = p div 2 ^ e * 2 ^ e + 2 ^ e"
    by (simp add: algebra_simps)
  also have "\<dots> \<le> p + 2 ^ e"
    by simp
  also have "\<dots> \<le> p + 2 ^ 32"
    using e32 by (intro add_left_mono power_increasing) simp_all
  finally have upper: "round_to_53_bits p < (k + 1) * 2 ^ 53"
    using high by simp
  from lower upper show ?thesis
    by (intro div_nat_eqI) (simp_all add: mult.commute)
qed

text \<open>The rounding when the exact product is just below a representable integer.\<close>

lemma rounding_up_to:
  assumes p: "p + j = t * 2 ^ round_exponent p" and j: "0 < j" "2 * j < 2 ^ round_exponent p"
  shows "round_to_53_bits p = t * 2 ^ round_exponent p"
proof -
  define e where "e = round_exponent p"
  define q where "q = p div 2 ^ e"
  define r where "r = p mod 2 ^ e"
  have pq: "p = q * 2 ^ e + r" and r: "r < 2 ^ e"
    by (simp_all add: q_def r_def div_mult_mod_eq)
  have p': "p + j = t * 2 ^ e" and j': "2 * j < 2 ^ e"
    using p j by (simp_all add: e_def)
  have "p < t * 2 ^ e"
    using p' j by linarith
  then have "q < t"
    by (simp add: q_def div_less_iff_less_mult)
  then have t_ge: "q + 1 \<le> t"
    by simp
  have sum: "t * 2 ^ e = q * 2 ^ e + r + j"
    using p' pq by linarith
  also have "\<dots> < q * 2 ^ e + 2 ^ e + 2 ^ e"
    using r j' by linarith
  also have "\<dots> = (q + 2) * 2 ^ e"
    by (simp add: algebra_simps)
  finally have "t < q + 2"
    by (simp only: mult_less_cancel2)
  with t_ge have t: "t = q + 1" by simp
  then have "q * 2 ^ e + 2 ^ e = q * 2 ^ e + r + j"
    using sum by (simp add: algebra_simps)
  then have "r + j = 2 ^ e" by simp
  then have "2 * r > 2 ^ e"
    using j' by linarith
  then show ?thesis
    by (simp add: round_to_53_bits_def Let_def e_def [symmetric] q_def [symmetric]
        r_def [symmetric] t)
qed

lemma round_small: "p < 2 ^ 53 \<Longrightarrow> round_to_53_bits p = p"
proof -
  assume "p < 2 ^ 53"
  then have "round_exponent p \<le> 0"
    by (intro round_exponent_le) simp
  then show ?thesis
    by (simp add: round_to_53_bits_def)
qed

lemma two_power_53: "(2::nat) ^ 53 = 9007199254740992"
  by simp

lemma compress_high: "mul_double_to_uint32 n ratio_high = of_nat (3 * unat n div 4)"
proof -
  have "unat n < 2 ^ 32"
    using unsigned_less [of n, where ?'a = nat] by simp
  then have "unat n * 3 < 2 ^ 53"
    by simp
  then show ?thesis
    by (simp add: mul_double_to_uint32_def ratio_high_def round_small mult.commute)
qed

lemma compress_low: "mul_double_to_uint32 n ratio_low = of_nat (2 * unat n div 5)"
proof -
  define u where "u = unat n"
  define k where "k = 2 * u div 5"
  have u: "u < 4294967296"
    using unsigned_less [of n, where ?'a = nat] by (simp add: u_def)
  have k: "5 * k \<le> 2 * u" "2 * u < 5 * k + 5"
    by (simp_all add: k_def)
  have "round_to_53_bits (u * 3602879701896397) div 2 ^ 53 = k"
  proof (rule truncated_rounding)
    show "k * 2 ^ 53 \<le> u * 3602879701896397"
      using k by (simp only: two_power_53)
    show "u * 3602879701896397 + 2 ^ 32 < (k + 1) * 2 ^ 53"
      using k u by (simp only: two_power_53) simp
    show "u * 3602879701896397 < 2 ^ 85"
      using u by simp
  qed
  then show ?thesis
    by (simp add: mul_double_to_uint32_def ratio_low_def u_def k_def)
qed

lemma compress_medium: "mul_double_to_uint32 n ratio_medium = of_nat (3 * unat n div 5)"
proof -
  define u where "u = unat n"
  define k where "k = 3 * u div 5"
  define p where "p = u * 5404319552844595"
  have u: "u < 4294967296"
    using unsigned_less [of n, where ?'a = nat] by (simp add: u_def)
  have k: "5 * k + 3 * u mod 5 = 3 * u" "3 * u mod 5 < 5"
    by (simp_all add: k_def)
  have "round_to_53_bits p div 2 ^ 53 = k"
  proof (cases "3 * u mod 5 = 0")
    case False
    then have rho: "1 \<le> 3 * u mod 5" by simp
    show ?thesis
    proof (rule truncated_rounding)
      show "k * 2 ^ 53 \<le> p"
        using k rho u unfolding p_def by (simp only: two_power_53)
      show "p + 2 ^ 32 < (k + 1) * 2 ^ 53"
        using k u unfolding p_def by (simp only: two_power_53) simp
      show "p < 2 ^ 85"
        using u unfolding p_def by simp
    qed
  next
    case True
    then have k3: "5 * k = 3 * u"
      using k by simp
    have "5 dvd u"
      using True by presburger
    then obtain j where uj: "u = 5 * j" ..
    then have kj: "k = 3 * j"
      using k3 by simp
    show ?thesis
    proof (cases "j = 0")
      case True
      then show ?thesis
        using uj kj by (simp add: p_def round_small)
    next
      case False
      define e where "e = round_exponent p"
      have pj: "p + j = 3 * j * 2 ^ 53"
        unfolding p_def uj by (simp only: two_power_53)
      have e32: "e \<le> 32"
        unfolding e_def using u by (intro round_exponent_le) (simp add: p_def)
      have split: "(2::nat) ^ 53 = 2 ^ (53 - e) * 2 ^ e"
        using e32 by (simp add: power_add [symmetric])
      have "p < 2 ^ (53 + e)"
        unfolding e_def by (rule less_two_power_round_exponent)
      then have "3 * j * 2 ^ 53 < 2 ^ 53 * 2 ^ e + j"
        using pj by (simp add: power_add)
      moreover have "j \<le> 2 ^ 53"
        using u uj by simp
      ultimately have "(3 * j - 1) * 2 ^ 53 < 2 ^ 53 * 2 ^ e"
        using False by (simp add: algebra_simps)
      then have "3 * j - 1 < 2 ^ e"
        by (simp add: mult.commute)
      then have small: "2 * j < 2 ^ e"
        using False by simp
      have "p + j = 3 * j * 2 ^ (53 - e) * 2 ^ e"
        using pj split by (simp add: mult.assoc)
      then have "round_to_53_bits p = 3 * j * 2 ^ (53 - e) * 2 ^ e"
        unfolding e_def using False small [unfolded e_def] by (intro rounding_up_to) simp_all
      then have "round_to_53_bits p = k * 2 ^ 53"
        using split kj by (simp add: mult.assoc)
      then show ?thesis
        by simp
    qed
  qed
  then show ?thesis
    by (simp add: mul_double_to_uint32_def ratio_medium_def u_def k_def p_def)
qed

subsection \<open>The encoded frame\<close>

lemma length_resize: "length (resize n xs) = n"
  by (simp add: resize_def)

lemma unat_of_nat_below:
  assumes "x \<le> unat (n :: 32 word)"
  shows "unat (of_nat x :: 32 word) = x"
proof -
  have "unat n < 2 ^ 32"
    using unsigned_less [of n, where ?'a = nat] by simp
  with assms have "x < 2 ^ 32" by simp
  then show ?thesis by (simp add: unat_of_nat)
qed

text \<open>For each of the three ratios the truncated double product is the integer part of
  the exact fraction, for every 32-bit size.\<close>

lemma compress_data_exact:
  "unat (compress_data e n) = tier_fraction (quality (m_config e)) (unat n)"
proof -
  have "3 * unat n div 4 \<le> unat n" "3 * unat n div 5 \<le> unat n" "2 * unat n div 5 \<le> unat n"
    by simp_all
  then show ?thesis
    by (simp add: compress_data_def tier_fraction_def compress_high compress_medium
        compress_low unat_of_nat_below)
qed

lemma encode_video_success:
  assumes "encode_video e input output = (True, output', e')"
  shows "\<exists>i out. input = Some i \<and> output' = Some out
           \<and> av_timestamp out = av_timestamp i
           \<and> av_size out = compress_data e ((av_width i * av_height i * 3) div 2)
           \<and> length (av_data out) = unat (av_size out)"
  using assms
  by (auto simp add: encode_video_def Let_def length_resize
      split: option.splits if_splits)

lemma encode_audio_success:
  assumes "encode_audio e input output = (True, output', e')"
  shows "\<exists>i out. input = Some i \<and> output' = Some out
           \<and> av_timestamp out = av_timestamp i
           \<and> av_size out = compress_data e (av_size i)
           \<and> length (av_data out) = unat (av_size out)"
  using assms
  by (auto simp add: encode_audio_def Let_def length_resize
      split: option.splits if_splits)

text \<open>
  Claim C8, as the code has it. Whenever \<^verbatim>\<open>encode_video\<close> or \<^verbatim>\<open>encode_audio\<close>
  returns \<^verbatim>\<open>true\<close>, neither frame pointer was null, the output frame has the
  timestamp of the input frame, and its \<^verbatim>\<open>data\<close> has exactly \<^verbatim>\<open>size\<close> bytes.
  For \<^verbatim>\<open>encode_audio\<close> the size is the integer part of the tier's fraction (3/4 for
  quality 80 and above, 3/5 from 50 to 79, 2/5 below 50) of the input frame's
  \<^verbatim>\<open>size\<close>. For \<^verbatim>\<open>encode_video\<close> it is the same fraction of
  \<^verbatim>\<open>(width * height * 3) / 2\<close>, computed in 32 bits from the input frame's
  geometry: the size of the raw YUV 4:2:0 picture, not the number of bytes the input
  frame holds.
\<close>

theorem encoded_frame_timestamp_and_size:
  "(encode_video e input output = (True, output', e') \<longrightarrow>
      (\<exists>i out. input = Some i \<and> output' = Some out
         \<and> av_timestamp out = av_timestamp i
         \<and> unat (av_size out) =
             tier_fraction (quality (m_config e)) (unat ((av_width i * av_height i * 3) div 2))
         \<and> length (av_data out) = unat (av_size out)))
   \<and> (encode_audio e input output = (True, output', e') \<longrightarrow>
      (\<exists>i out. input = Some i \<and> output' = Some out
         \<and> av_timestamp out = av_timestamp i
         \<and> unat (av_size out) = tier_fraction (quality (m_config e)) (unat (av_size i))
         \<and> length (av_data out) = unat (av_size out)))"
proof (intro conjI impI)
  assume "encode_video e input output = (True, output', e')"
  from encode_video_success [OF this] show
    "\<exists>i out. input = Some i \<and> output' = Some out
         \<and> av_timestamp out = av_timestamp i
         \<and> unat (av_size out) =
             tier_fraction (quality (m_config e)) (unat ((av_width i * av_height i * 3) div 2))
         \<and> length (av_data out) = unat (av_size out)"
    by (auto simp add: compress_data_exact)
next
  assume "encode_audio e input output = (True, output', e')"
  from encode_audio_success [OF this] show
    "\<exists>i out. input = Some i \<and> output' = Some out
         \<and> av_timestamp out = av_timestamp i
         \<and> unat (av_size out) = tier_fraction (quality (m_config e)) (unat (av_size i))
         \<and> length (av_data out) = unat (av_size out)"
    by (auto simp add: compress_data_exact)
qed

text \<open>The frames of the default capture configurations.\<close>

lemma running_engine_fields:
  "m_is_running (running_engine q)" "quality (m_config (running_engine q)) = q"
  by (simp_all add: running_engine_def start_engine_def CompressionEngine_init_def
      CompressionConfig_init_def)

lemma default_video_frame_fields:
  "av_size default_video_frame = 100000"
  "av_width default_video_frame = 1920"
  "av_height default_video_frame = 1080"
  "av_timestamp default_video_frame = 1000"
  by (simp_all add: default_video_frame_def capture_frame_def Let_def length_resize)

lemma default_audio_frame_fields:
  "av_size default_audio_frame = 3840"
  "av_timestamp default_audio_frame = 1020"
  by (simp_all add: default_audio_frame_def capture_audio_frame_def Let_def length_resize)

lemma encode_video_returns_true:
  "fst (encode_video (running_engine q) (Some i) (Some out))"
  by (simp add: encode_video_def running_engine_fields Let_def)

lemma encode_audio_returns_true:
  "fst (encode_audio (running_engine q) (Some i) (Some out))"
  by (simp add: encode_audio_def running_engine_fields Let_def)

text \<open>The video frame of the default configuration holds 100000 bytes (the capture
  caps the data at that), three quarters of which are 75000; encoded at quality 80 it
  has 2332800 bytes, three quarters of 1920 * 1080 * 3 / 2 = 3110400.\<close>

lemma encode_video_size_is_not_a_fraction_of_the_input_bytes:
  "fst (encode_video (running_engine 80) (Some default_video_frame) (Some pool_frame))
   \<and> unat (av_size default_video_frame) = 100000
   \<and> tier_fraction 80 100000 = 75000
   \<and> map_option (\<lambda>out. unat (av_size out))
       (fst (snd (encode_video (running_engine 80) (Some default_video_frame) (Some pool_frame))))
     = Some 2332800"
proof -
  have "compress_data (running_engine 80) 3110400 = 2332800"
    by (simp add: compress_data_def running_engine_fields compress_high)
  then show ?thesis
    by (simp add: encode_video_def running_engine_fields Let_def default_video_frame_fields
        tier_fraction_def)
qed

text \<open>The theorem at the default video frame, quality 80, and at the default audio
  frame (3840 bytes), quality 60.\<close>

theorem encoded_frame_timestamp_and_size_witness:
  "(\<exists>out. fst (snd (encode_video (running_engine 80) (Some default_video_frame) (Some pool_frame)))
            = Some out
          \<and> av_timestamp out = 1000 \<and> unat (av_size out) = 2332800
          \<and> length (av_data out) = 2332800)
   \<and> (\<exists>out. fst (snd (encode_audio (running_engine 60) (Some default_audio_frame) (Some pool_frame)))
            = Some out
          \<and> av_timestamp out = 1020 \<and> unat (av_size out) = 2304
          \<and> length (av_data out) = 2304)"
proof -
  let ?v = "encode_video (running_engine 80) (Some default_video_frame) (Some pool_frame)"
  let ?a = "encode_audio (running_engine 60) (Some default_audio_frame) (Some pool_frame)"
  have v: "?v = (True, fst (snd ?v), snd (snd ?v))"
    using encode_video_returns_true [of 80 default_video_frame pool_frame]
    by (cases ?v) simp
  have a: "?a = (True, fst (snd ?a), snd (snd ?a))"
    using encode_audio_returns_true [of 60 default_audio_frame pool_frame]
    by (cases ?a) simp
  have size_v: "unat ((1920 * 1080 * 3) div 2 :: 32 word) = 3110400"
    by simp
  have size_a: "unat (3840 :: 32 word) = 3840"
    by simp
  from encoded_frame_timestamp_and_size
         [of "running_engine 80" "Some default_video_frame" "Some pool_frame"
             "fst (snd ?v)" "snd (snd ?v)"] v
  have "\<exists>out. fst (snd ?v) = Some out
          \<and> av_timestamp out = 1000 \<and> unat (av_size out) = 2332800
          \<and> length (av_data out) = 2332800"
    by (auto simp add: running_engine_fields default_video_frame_fields size_v
        tier_fraction_def)
  moreover
  from encoded_frame_timestamp_and_size
         [of "running_engine 60" "Some default_audio_frame" "Some pool_frame"
             "fst (snd ?a)" "snd (snd ?a)"] a
  have "\<exists>out. fst (snd ?a) = Some out
          \<and> av_timestamp out = 1020 \<and> unat (av_size out) = 2304
          \<and> length (av_data out) = 2304"
    by (auto simp add: running_engine_fields default_audio_frame_fields size_a
        tier_fraction_def)
  ultimately show ?thesis by blast
qed

section \<open>MediaProcessor: the output queue\<close>

text \<open>\<^verbatim>\<open>push\<close> has no bound to look at.\<close>

lemma queue_size_push: "queue_size (push v q) = queue_size q + 1"
  by (simp add: queue_size_def push_fields)

text \<open>An encoder call leaves the running flag alone, and succeeds exactly when the engine
  runs (the frames being there).\<close>

lemma encode_video_running:
  "m_is_running (snd (snd (encode_video e input output))) = m_is_running e"
  by (simp add: encode_video_def update_stats_def Let_def split: option.splits)

lemma encode_audio_running:
  "m_is_running (snd (snd (encode_audio e input output))) = m_is_running e"
  by (simp add: encode_audio_def update_stats_def Let_def split: option.splits)

lemma encode_video_cases:
  "encode_video e (Some i) (Some out) = (ok, res, e') \<Longrightarrow>
     (ok \<longleftrightarrow> m_is_running e) \<and> res \<noteq> None \<and> m_is_running e' = m_is_running e"
  by (auto simp add: encode_video_def update_stats_def Let_def split: if_splits)

lemma encode_audio_cases:
  "encode_audio e (Some i) (Some out) = (ok, res, e') \<Longrightarrow>
     (ok \<longleftrightarrow> m_is_running e) \<and> res \<noteq> None \<and> m_is_running e' = m_is_running e"
  by (auto simp add: encode_audio_def update_stats_def Let_def split: if_splits)

text \<open>Each half of the loop body appends one message when there is a frame and the
  engine runs, and otherwise leaves the queue as it is.\<close>

lemma process_video_queue:
  "\<exists>ms. m_queue (m_message_queue (process_video can_allocate a storage now raw_video p))
           = m_queue (m_message_queue p) @ ms
      \<and> length ms = (if raw_video \<noteq> None \<and> m_is_running (m_compress_engine p) then 1 else 0)"
proof (cases raw_video)
  case None
  then show ?thesis by (simp add: process_video_def)
next
  case (Some raw)
  obtain frame pool where g: "pool_get (m_frame_pool p) = (frame, pool)"
    by (cases "pool_get (m_frame_pool p)")
  obtain ok res e' where
    e: "encode_video (m_compress_engine p) (Some raw) (Some frame) = (ok, res, e')"
    by (cases "encode_video (m_compress_engine p) (Some raw) (Some frame)")
  from encode_video_cases [OF e] obtain enc where
    r: "res = Some enc" "ok = m_is_running (m_compress_engine p)"
    by auto
  show ?thesis
    by (cases ok) (use r in \<open>simp_all add: process_video_def Some g e Let_def push_fields\<close>)
qed

lemma process_video_running:
  "m_is_running (m_compress_engine (process_video can_allocate a storage now raw_video p))
     = m_is_running (m_compress_engine p)"
proof (cases raw_video)
  case None
  then show ?thesis by (simp add: process_video_def)
next
  case (Some raw)
  obtain frame pool where g: "pool_get (m_frame_pool p) = (frame, pool)"
    by (cases "pool_get (m_frame_pool p)")
  obtain ok res e' where
    e: "encode_video (m_compress_engine p) (Some raw) (Some frame) = (ok, res, e')"
    by (cases "encode_video (m_compress_engine p) (Some raw) (Some frame)")
  from encode_video_cases [OF e] obtain enc where
    r: "res = Some enc" "m_is_running e' = m_is_running (m_compress_engine p)"
    by auto
  show ?thesis
    by (cases ok) (use r in \<open>simp_all add: process_video_def Some g e Let_def\<close>)
qed

lemma process_audio_queue:
  "\<exists>ms. m_queue (m_message_queue (process_audio can_allocate a storage now raw_audio p))
           = m_queue (m_message_queue p) @ ms
      \<and> length ms = (if raw_audio \<noteq> None \<and> m_is_running (m_compress_engine p) then 1 else 0)"
proof (cases raw_audio)
  case None
  then show ?thesis by (simp add: process_audio_def)
next
  case (Some raw)
  obtain frame pool where g: "pool_get (m_frame_pool p) = (frame, pool)"
    by (cases "pool_get (m_frame_pool p)")
  obtain ok res e' where
    e: "encode_audio (m_compress_engine p) (Some raw) (Some frame) = (ok, res, e')"
    by (cases "encode_audio (m_compress_engine p) (Some raw) (Some frame)")
  from encode_audio_cases [OF e] obtain enc where
    r: "res = Some enc" "ok = m_is_running (m_compress_engine p)"
    by auto
  show ?thesis
    by (cases ok) (use r in \<open>simp_all add: process_audio_def Some g e Let_def push_fields\<close>)
qed

lemma process_audio_running:
  "m_is_running (m_compress_engine (process_audio can_allocate a storage now raw_audio p))
     = m_is_running (m_compress_engine p)"
proof (cases raw_audio)
  case None
  then show ?thesis by (simp add: process_audio_def)
next
  case (Some raw)
  obtain frame pool where g: "pool_get (m_frame_pool p) = (frame, pool)"
    by (cases "pool_get (m_frame_pool p)")
  obtain ok res e' where
    e: "encode_audio (m_compress_engine p) (Some raw) (Some frame) = (ok, res, e')"
    by (cases "encode_audio (m_compress_engine p) (Some raw) (Some frame)")
  from encode_audio_cases [OF e] obtain enc where
    r: "res = Some enc" "m_is_running e' = m_is_running (m_compress_engine p)"
    by auto
  show ?thesis
    by (cases ok) (use r in \<open>simp_all add: process_audio_def Some g e Let_def\<close>)
qed

lemma process_iteration_running:
  "m_is_running (m_compress_engine
      (process_iteration can_allocate a storage now_video now_audio raw_video raw_audio p))
     = m_is_running (m_compress_engine p)"
  by (simp add: process_iteration_def process_audio_running process_video_running)

lemma process_iteration_queue:
  "\<exists>ms. m_queue (m_message_queue
            (process_iteration can_allocate a storage now_video now_audio raw_video raw_audio p))
           = m_queue (m_message_queue p) @ ms
      \<and> length ms = (if raw_video \<noteq> None \<and> m_is_running (m_compress_engine p) then 1 else 0)
                  + (if raw_audio \<noteq> None \<and> m_is_running (m_compress_engine p) then 1 else 0)"
proof -
  let ?p = "process_video can_allocate a storage now_video raw_video p"
  obtain ms where ms: "m_queue (m_message_queue ?p) = m_queue (m_message_queue p) @ ms"
    "length ms = (if raw_video \<noteq> None \<and> m_is_running (m_compress_engine p) then 1 else 0)"
    using process_video_queue [of can_allocate a storage now_video raw_video p] by blast
  obtain ms' where ms': "m_queue (m_message_queue (process_audio can_allocate a storage now_audio raw_audio ?p))
       = m_queue (m_message_queue ?p) @ ms'"
    "length ms' = (if raw_audio \<noteq> None \<and> m_is_running (m_compress_engine ?p) then 1 else 0)"
    using process_audio_queue [of can_allocate a storage now_audio raw_audio ?p] by blast
  have "m_queue (m_message_queue
            (process_iteration can_allocate a storage now_video now_audio raw_video raw_audio p))
           = m_queue (m_message_queue p) @ (ms @ ms')"
    by (simp add: process_iteration_def ms ms')
  moreover have "length (ms @ ms') =
      (if raw_video \<noteq> None \<and> m_is_running (m_compress_engine p) then 1 else 0)
    + (if raw_audio \<noteq> None \<and> m_is_running (m_compress_engine p) then 1 else 0)"
    using ms(2) ms'(2) by (simp only: length_append process_video_running)
  ultimately show ?thesis by blast
qed

text \<open>With a frame in every iteration and no consumer, the queue holds as many
  messages as there were iterations.\<close>

lemma produce_running: "m_is_running (m_compress_engine (produce n))"
  by (induction n)
    (simp_all add: produce_def process_iteration_running default_processor_def
      MediaProcessor_init_def running_engine_def start_engine_def)

lemma get_queue_size_produce: "get_queue_size (produce n) = n"
proof (induction n)
  case 0
  then show ?case
    by (simp add: produce_def get_queue_size_def queue_size_def default_processor_def
        MediaProcessor_init_def SafeQueue_init_def)
next
  case (Suc n)
  have step: "produce (Suc n) =
      process_iteration alloc_succeeds packed (zero_storage 20) 1000 1000
        (Some default_video_frame) None (produce n)"
    by (simp add: produce_def)
  obtain ms where "m_queue (m_message_queue (produce (Suc n)))
       = m_queue (m_message_queue (produce n)) @ ms" "length ms = 1"
    using process_iteration_queue [of alloc_succeeds packed "zero_storage 20" 1000 1000
        "Some default_video_frame" None "produce n"] produce_running [of n]
    unfolding step by auto
  with Suc show ?case
    by (simp add: get_queue_size_def queue_size_def)
qed

text \<open>No number bounds the length of the queue.\<close>

lemma produce_exceeds_every_capacity:
  "\<not> (\<exists>capacity. \<forall>n. get_queue_size (produce n) \<le> capacity)"
proof
  assume "\<exists>capacity. \<forall>n. get_queue_size (produce n) \<le> capacity"
  then obtain capacity where "\<forall>n. get_queue_size (produce n) \<le> capacity" ..
  then have "get_queue_size (produce (Suc capacity)) \<le> capacity" ..
  then show False
    by (simp add: get_queue_size_produce)
qed

text \<open>
  Claim C6. The code does not keep it: the output queue of the pipeline has no capacity
  and the producer never pauses for room. \<^verbatim>\<open>push\<close> makes the queue one longer
  whatever its length. An iteration of \<^verbatim>\<open>process_loop\<close> keeps every message that
  is in the queue (this part of the claim holds: the producer takes none out) and appends
  one for the video frame and one for the audio frame, if there is one and the engine
  runs. After \<open>n\<close> iterations with a video frame each and no consumer the queue holds
  \<open>n\<close> messages, so that no capacity bounds it.
\<close>

theorem output_queue_only_grows:
  "queue_size (push msg q) = queue_size q + 1
   \<and> (\<exists>ms. m_queue (m_message_queue
               (process_iteration can_allocate a storage now_video now_audio raw_video raw_audio p))
             = m_queue (m_message_queue p) @ ms
          \<and> length ms =
              (if raw_video \<noteq> None \<and> m_is_running (m_compress_engine p) then 1 else 0)
            + (if raw_audio \<noteq> None \<and> m_is_running (m_compress_engine p) then 1 else 0))
   \<and> get_queue_size (produce n) = n
   \<and> \<not> (\<exists>capacity. \<forall>n. get_queue_size (produce n) \<le> capacity)"
  by (intro conjI queue_size_push process_iteration_queue get_queue_size_produce
      produce_exceeds_every_capacity)

section \<open>The distribution loop: a subscriber that does not read\<close>

text \<open>When the send to a client blocks, the loop over the clients is blocked, and the
  connections of the clients behind it are as they were.\<close>

lemma distribute_blocked:
  assumes "distinct (map fst (before @ (k, session) # after))"
    and "is_active session"
    and "get_connection srv k = Some c"
    and "send msg c = Blocked c'"
  shows "\<exists>srv'. distribute a msg (before @ (k, session) # after) srv = Blocked srv'
           \<and> (\<forall>j \<in> fst ` set after. m_connections srv' j = m_connections srv j)"
  using assms
proof (induction before arbitrary: srv)
  case Nil
  then show ?case
    by (auto simp add: get_connection_def)
next
  case (Cons entry before)
  obtain key s where entry: "entry = (key, s)"
    by (cases entry)
  from Cons.prems(1) have key: "key \<noteq> k" "key \<notin> fst ` set after"
    and rest: "distinct (map fst (before @ (k, session) # after))"
    by (auto simp add: entry)
  have step: "\<exists>srv'. distribute a msg (before @ (k, session) # after) srv0 = Blocked srv'
           \<and> (\<forall>j \<in> fst ` set after. m_connections srv' j = m_connections srv0 j)"
    if "get_connection srv0 k = Some c" for srv0
    using Cons.IH [OF rest Cons.prems(2) that Cons.prems(4)] .
  show ?case
  proof (cases "is_active s")
    case False
    then show ?thesis
      using step [OF Cons.prems(3)] by (simp add: entry)
  next
    case True
    show ?thesis
    proof (cases "get_connection srv key")
      case None
      then show ?thesis
        using step [OF Cons.prems(3)] True by (simp add: entry)
    next
      case (Some conn)
      show ?thesis
      proof (cases "send msg conn")
        case (Blocked conn')
        then show ?thesis
          using True Some key by (auto simp add: entry)
      next
        case (Returned ok conn')
        let ?srv = "srv\<lparr>m_connections := (m_connections srv)(key \<mapsto> conn'),
                         m_stats := count_sent a msg (m_stats srv)\<rparr>"
        have "get_connection ?srv k = Some c"
          using Cons.prems(3) key by (simp add: get_connection_def)
        from step [OF this] obtain srv' where
          "distribute a msg (before @ (k, session) # after) ?srv = Blocked srv'"
          "\<forall>j \<in> fst ` set after. m_connections srv' j = m_connections ?srv j"
          by blast
        then show ?thesis
          using True Some Returned key by (auto simp add: entry)
      qed
    qed
  qed
qed

text \<open>
  Claim C7 asks that a subscriber whose send blocks for good does not keep a message
  from the other subscribers. The distribution loop does not meet it. It is one thread
  that takes a message from the queue of the processor and calls the synchronous
  \<^verbatim>\<open>Connection::send\<close> for one client after the other. When the send to an active
  client \<open>k\<close> does not return, the iteration does not return either, and the sockets of
  all clients that come after \<open>k\<close> in the map have accepted no byte of the message:
  they hold what they held before. The message is gone from the queue, and no later
  message is ever taken from it.
\<close>

theorem stuck_subscriber_blocks_the_subscribers_behind_it:
  assumes "try_get_message a (m_media_processor srv) = (Some msg, p)"
    and "m_clients srv = before @ (k, session) # after"
    and "distinct (map fst (m_clients srv))"
    and "is_active session"
    and "get_connection srv k = Some c"
    and "send msg c = Blocked c'"
  shows "\<exists>srv'. distribution_iteration a srv = Blocked srv'
           \<and> (\<forall>j \<in> fst ` set after. accepted_by srv' j = accepted_by srv j)"
proof -
  let ?srv = "srv\<lparr>m_media_processor := p\<rparr>"
  have "get_connection ?srv k = Some c"
    using assms(5) by (simp add: get_connection_def)
  from distribute_blocked [OF assms(3) [unfolded assms(2)] assms(4) this assms(6), of a]
  obtain srv' where
    "distribute a msg (before @ (k, session) # after) ?srv = Blocked srv'"
    "\<forall>j \<in> fst ` set after. m_connections srv' j = m_connections ?srv j"
    by blast
  then show ?thesis
    using assms(1,2) by (auto simp add: distribution_iteration_def accepted_by_def)
qed

text \<open>The two sockets, and the server with two clients.\<close>

lemma send_loop_stuck: "data \<noteq> [] \<Longrightarrow> send_loop stuck_socket data = Blocked stuck_socket"
  by (simp add: send_loop.simps stuck_socket_def)

lemma send_loop_Nil: "send_loop sock [] = Returned True sock"
  by (simp add: send_loop.simps)

lemma send_loop_healthy:
  "data \<noteq> [] \<Longrightarrow>
     send_loop healthy_socket data = Returned True (healthy_socket\<lparr>sock_accepted := data\<rparr>)"
  by (subst send_loop.simps) (simp add: healthy_socket_def send_loop_Nil)

lemma to_bytes_not_Nil: "m_header m \<noteq> [] \<Longrightarrow> to_bytes m \<noteq> []"
  by (simp add: to_bytes_def serialize_def memcpy_from_def HEADER_SIZE_def)

lemma video_message_header: "m_header (video_message packed) \<noteq> []"
  by (simp add: video_message_packed)

lemma send_stuck:
  "send (video_message packed) (endpoint stuck_socket) = Blocked (endpoint stuck_socket)"
  by (simp add: send_def endpoint_def send_loop_stuck to_bytes_not_Nil video_message_header)

lemma send_healthy:
  "send (video_message packed) (endpoint healthy_socket) =
     Returned True (endpoint (healthy_socket\<lparr>sock_accepted := to_bytes (video_message packed)\<rparr>))"
  by (simp add: send_def endpoint_def send_loop_healthy to_bytes_not_Nil video_message_header)

lemma two_clients_message:
  "try_get_message packed (m_media_processor two_clients) =
     (Some (video_message packed),
      default_processor\<lparr>m_message_queue := SafeQueue_init\<rparr>)"
  by (simp add: try_get_message_def two_clients_def try_pop_def push_def notify_one_def
      SafeQueue_init_def)

text \<open>Client 1 is stuck: the healthy client 2 gets nothing.\<close>

theorem stuck_subscriber_blocks_the_subscribers_behind_it_witness:
  "\<exists>srv'. distribution_iteration packed two_clients = Blocked srv' \<and> accepted_by srv' 2 = []"
proof -
  have "\<exists>srv'. distribution_iteration packed two_clients = Blocked srv'
           \<and> (\<forall>j \<in> fst ` set [(2, \<lparr>client_id = 2, is_active = True\<rparr>)].
                 accepted_by srv' j = accepted_by two_clients j)"
  proof (rule stuck_subscriber_blocks_the_subscribers_behind_it
      [where before = "[]" and k = 1 and session = "\<lparr>client_id = 1, is_active = True\<rparr>"])
    show "try_get_message packed (m_media_processor two_clients) =
        (Some (video_message packed), default_processor\<lparr>m_message_queue := SafeQueue_init\<rparr>)"
      by (rule two_clients_message)
    show "m_clients two_clients =
        [] @ (1, \<lparr>client_id = 1, is_active = True\<rparr>) # [(2, \<lparr>client_id = 2, is_active = True\<rparr>)]"
      by (simp add: two_clients_def)
    show "distinct (map fst (m_clients two_clients))"
      by (simp add: two_clients_def)
    show "is_active \<lparr>client_id = 1, is_active = True\<rparr>"
      by simp
    show "get_connection two_clients 1 = Some (endpoint stuck_socket)"
      by (simp add: get_connection_def two_clients_def)
    show "send (video_message packed) (endpoint stuck_socket) = Blocked (endpoint stuck_socket)"
      by (rule send_stuck)
  qed
  moreover have "accepted_by two_clients 2 = []"
    by (simp add: accepted_by_def two_clients_def endpoint_def healthy_socket_def)
  ultimately show ?thesis
    by auto
qed

text \<open>Client 2 is stuck: the healthy client 1, which the loop visits first, has the whole
  message, so what a healthy client gets depends on its place in the map.\<close>

lemma two_clients_swapped_fields:
  "try_get_message packed (m_media_processor two_clients_swapped) =
     (Some (video_message packed), default_processor\<lparr>m_message_queue := SafeQueue_init\<rparr>)"
  "m_clients two_clients_swapped =
     [(1, \<lparr>client_id = 1, is_active = True\<rparr>), (2, \<lparr>client_id = 2, is_active = True\<rparr>)]"
  "m_connections two_clients_swapped =
     [1 \<mapsto> endpoint healthy_socket, 2 \<mapsto> endpoint stuck_socket]"
  by (simp_all add: two_clients_swapped_def two_clients_message)
    (simp add: two_clients_def)

lemma subscriber_ahead_of_the_stuck_one_is_served:
  "\<exists>srv'. distribution_iteration packed two_clients_swapped = Blocked srv'
     \<and> accepted_by srv' 1 = to_bytes (video_message packed)
     \<and> accepted_by srv' 2 = []"
  unfolding distribution_iteration_def two_clients_swapped_fields
  by (simp add: get_connection_def two_clients_swapped_fields send_healthy send_stuck
      accepted_by_def)
    (simp add: endpoint_def stuck_socket_def)

end
